theory Spec2Isabelle
  imports Main "HOL-Library.Sublist"
begin

section \<open>The inline completion provider (LlmInlineCompletionItemProvider)\<close>

text \<open>
  The provider lives in \<^verbatim>\<open>src/extension/externalAgents/node/oaiLanguageModelServer.ts\<close>
  (third document of that file, class \<^verbatim>\<open>LlmInlineCompletionItemProvider\<close>). It is
  single-threaded cooperative code: every method runs without interruption up to its next
  \<^verbatim>\<open>await\<close>. The embedding therefore has one HOL function per source function, and the
  asynchronous \<^verbatim>\<open>_requestCompletion\<close> is cut at its suspension points into the pieces
  that run atomically. An \<open>event\<close> is one such atomic piece being run by the host, by a
  timer or by the remote transport; \<open>step\<close> runs one event and \<open>run\<close> a whole trace.
\<close>

subsection \<open>Host data types\<close>

record Position =
  line :: nat
  character :: nat

text \<open>\<^verbatim>\<open>Range\<close>: the fields \<^verbatim>\<open>start\<close> and \<^verbatim>\<open>end\<close>.\<close>

record Range =
  range_start :: Position
  range_end :: Position

record TextDocument =
  uri :: string
  version :: nat
  languageId :: string
  lines :: "string list"

text \<open>\<^verbatim>\<open>InlineCompletionContext\<close>: both fields are optional in the source.\<close>

record InlineCompletionContext =
  ctx_requestUuid :: "string option"
  userPrompt :: "string option"

record InlineCompletionItem =
  insertText :: string
  item_range :: Range
  correlationId :: "string option"

record InlineCompletionList =
  items :: "InlineCompletionItem list"
  enableForwardStability :: bool

text \<open>
  What a call of \<^verbatim>\<open>provideInlineCompletionItems\<close> hands back: \<open>Returned None\<close> is
  \<^verbatim>\<open>undefined\<close>, \<open>Raised\<close> is a rejected promise.
\<close>

datatype poll_result = Raised | Returned "InlineCompletionList option"

text \<open>The final resolution of the remote call (\<^verbatim>\<open>ChatFetchResponseType\<close>): success with
  the value, cancelled, or any other type, each of which carries a reason.\<close>

datatype ChatResponse = Success string | Canceled | Failed string

subsection \<open>Cancellation handles\<close>

text \<open>
  Modelled from the spec: \<^verbatim>\<open>CancellationTokenSource\<close> (util/vs/base/common/cancellation)
  is not among the sources. The spec describes it as a cancellation handle supporting
  \<^verbatim>\<open>cancel()\<close>, \<^verbatim>\<open>isCancelled()\<close> and hierarchical linkage (a child handle cancels when
  its parent does), which is disposed. The model keeps the flag read by
  \<^verbatim>\<open>token.isCancellationRequested\<close> and counts the invocations of \<^verbatim>\<open>dispose()\<close>.
  Disposing detaches the handle from its parent token, so the parent link is live exactly
  while \<open>disposeCalls\<close> is 0.
\<close>

record CancellationTokenSource =
  isCancellationRequested :: bool
  disposeCalls :: nat

definition cts_cancel :: "CancellationTokenSource \<Rightarrow> CancellationTokenSource" where
  "cts_cancel c = c\<lparr>isCancellationRequested := True\<rparr>"

definition cts_dispose :: "CancellationTokenSource \<Rightarrow> CancellationTokenSource" where
  "cts_dispose c = c\<lparr>disposeCalls := Suc (disposeCalls c)\<rparr>"

subsection \<open>Sessions and the provider's state\<close>

text \<open>
  \<^verbatim>\<open>interface CompletionSession\<close>. The fields \<^verbatim>\<open>range\<close>, \<^verbatim>\<open>text\<close>, \<^verbatim>\<open>done\<close> and
  \<^verbatim>\<open>error\<close> carry the prefix \<open>session_\<close> here, their own names being taken in
  Isabelle. \<open>session_error = None\<close> is the absent optional field.
\<close>

record CompletionSession =
  requestUuid :: string
  documentUri :: string
  documentVersion :: nat
  position :: Position
  session_range :: Range
  cancellation :: CancellationTokenSource
  session_text :: string
  session_done :: bool
  session_error :: "string option"

text \<open>
  Where the suspended \<^verbatim>\<open>_requestCompletion\<close> call of a session stands:
  \<^item> \<open>Throttling d\<close>: inside \<^verbatim>\<open>_throttle\<close>, awaiting
    \<^verbatim>\<open>raceCancellation(timeout(diff), token)\<close>; the timer is due at time \<open>d\<close>;
  \<^item> \<open>Throttled t\<close>: \<^verbatim>\<open>_throttle\<close> has finished without waiting and has written the
    timestamp \<open>t\<close>; the driver is suspended at \<^verbatim>\<open>await this._throttle(...)\<close>;
  \<^item> \<open>Fetching\<close>: past the cancellation check, awaiting the endpoint and the remote call
    \<^verbatim>\<open>fetchOne\<close>;
  \<^item> \<open>Exited\<close>: the \<^verbatim>\<open>finally\<close> block has run.
\<close>

datatype phase = Throttling int | Throttled int | Fetching | Exited

text \<open>The two listeners that \<^verbatim>\<open>provideInlineCompletionItems\<close> puts on the host's token:
  the parent link of the new \<^verbatim>\<open>CancellationTokenSource(token)\<close>, and
  \<^verbatim>\<open>() => this._clearSession(requestKey, true)\<close>.\<close>

datatype listener = CancelSource nat | ClearSessionKey string

text \<open>
  The state of the provider and of its collaborators.
  \<^item> \<open>sessions\<close> is \<^verbatim>\<open>_sessions\<close>, a map from request key to a reference to a session
    object; \<open>heap\<close> holds the objects, \<open>nextSid\<close> is the next unused reference. The driver
    keeps its reference after the session has left the map, which is why objects and map
    are separate.
  \<^item> \<open>lastRequestTimestamp\<close> is \<^verbatim>\<open>_lastRequestTimestamp\<close>.
  \<^item> \<open>didChangeTriggers\<close> counts the calls of \<^verbatim>\<open>_updateDelayer.trigger\<close>.
  \<^item> \<open>enabledLanguages\<close> is the value of the configuration key read by
    \<^verbatim>\<open>_isLanguageEnabled\<close>.
  \<^item> \<open>phase\<close> is the suspended driver of each session.
  \<^item> \<open>streamed\<close> is the transport's cumulative text of each remote call.
  \<^item> \<open>listeners\<close> are the listeners on the host's tokens, in registration order.
  \<^item> \<open>dispatched\<close> is the transport's log: which session's driver went on to issue its remote
    request, with the throttle timestamp of that moment.
\<close>

record engine =
  sessions :: "string \<rightharpoonup> nat"
  heap :: "nat \<Rightarrow> CompletionSession"
  nextSid :: nat
  lastRequestTimestamp :: int
  didChangeTriggers :: nat
  enabledLanguages :: "(string \<rightharpoonup> bool) option"
  phase :: "nat \<Rightarrow> phase"
  streamed :: "nat \<Rightarrow> string"
  listeners :: "(nat \<times> listener) list"
  dispatched :: "(nat \<times> int) list"

definition MIN_REQUEST_INTERVAL :: int where "MIN_REQUEST_INTERVAL = 75"

text \<open>A session object before anything is stored at its reference.\<close>

definition blankSession :: CompletionSession where
  "blankSession =
     \<lparr>requestUuid = [], documentUri = [], documentVersion = 0,
      position = \<lparr>line = 0, character = 0\<rparr>,
      session_range = \<lparr>range_start = \<lparr>line = 0, character = 0\<rparr>,
                       range_end = \<lparr>line = 0, character = 0\<rparr>\<rparr>,
      cancellation = \<lparr>isCancellationRequested = False, disposeCalls = 0\<rparr>,
      session_text = [], session_done = False, session_error = None\<rparr>"

text \<open>The provider as constructed: no session, \<^verbatim>\<open>_lastRequestTimestamp = 0\<close>.\<close>

definition init :: "(string \<rightharpoonup> bool) option \<Rightarrow> engine" where
  "init cfg =
     \<lparr>sessions = Map.empty, heap = (\<lambda>_. blankSession), nextSid = 0,
      lastRequestTimestamp = 0, didChangeTriggers = 0, enabledLanguages = cfg,
      phase = (\<lambda>_. Exited), streamed = (\<lambda>_. []), listeners = [], dispatched = []\<rparr>"

text \<open>JavaScript truthiness of a \<^verbatim>\<open>string | undefined\<close>: the empty string is falsy.\<close>

definition truthy :: "string option \<Rightarrow> bool" where
  "truthy v = (case v of None \<Rightarrow> False | Some s \<Rightarrow> s \<noteq> [])"

subsection \<open>The guards and the request key\<close>

text \<open>\<^verbatim>\<open>_isLanguageEnabled\<close>: no configuration enables everything; a missing wildcard
  counts as \<^verbatim>\<open>true\<close>.\<close>

definition isLanguageEnabled :: "(string \<rightharpoonup> bool) option \<Rightarrow> TextDocument \<Rightarrow> bool" where
  "isLanguageEnabled cfg document =
     (case cfg of
        None \<Rightarrow> True
      | Some enabled \<Rightarrow>
          (let m = (if enabled ''*'' = None then enabled(''*'' \<mapsto> True) else enabled)
           in case m (languageId document) of
                Some v \<Rightarrow> v
              | None \<Rightarrow> (case m ''*'' of Some w \<Rightarrow> w | None \<Rightarrow> True)))"

text \<open>The regular expression \<^verbatim>\<open>/\w/\<close>: an ASCII letter, a digit or the underscore.\<close>

definition isWordChar :: "char \<Rightarrow> bool" where
  "isWordChar c =
     (let n = (of_char c :: nat)
      in (48 \<le> n \<and> n \<le> 57) \<or> (65 \<le> n \<and> n \<le> 90) \<or> n = 95 \<or> (97 \<le> n \<and> n \<le> 122))"

text \<open>\<^verbatim>\<open>_isAtMidWord\<close>. \<^verbatim>\<open>document.lineAt\<close> throws on a line the document does not
  have: that is \<open>None\<close>.\<close>

definition isAtMidWord :: "TextDocument \<Rightarrow> Position \<Rightarrow> bool option" where
  "isAtMidWord document pos =
     (if line pos \<ge> length (lines document) then None
      else (let l = lines document ! line pos
            in if character pos \<ge> length l then Some False
               else Some (isWordChar (l ! character pos))))"

fun show_nat :: "nat \<Rightarrow> string" where
  "show_nat n =
     (if n < 10 then [char_of (48 + n)]
      else show_nat (n div 10) @ [char_of (48 + n mod 10)])"

declare show_nat.simps [simp del]

text \<open>\<^verbatim>\<open>context.requestUuid ?? `${uri}#${version}#${line}:${character}`\<close>\<close>

definition requestKey :: "InlineCompletionContext \<Rightarrow> TextDocument \<Rightarrow> Position \<Rightarrow> string" where
  "requestKey ctx document pos =
     (case ctx_requestUuid ctx of
        Some u \<Rightarrow> u
      | None \<Rightarrow> uri document @ ''#'' @ show_nat (version document) @ ''#''
                @ show_nat (line pos) @ '':'' @ show_nat (character pos))"

subsection \<open>The provider's private operations\<close>

text \<open>Assignment to a field of the session object behind a reference, the move of a
  session's driver to another suspension point, and the read of
  \<^verbatim>\<open>cancellationToken.isCancellationRequested\<close>.\<close>

definition updSession ::
  "nat \<Rightarrow> (CompletionSession \<Rightarrow> CompletionSession) \<Rightarrow> engine \<Rightarrow> engine" where
  "updSession sid f st = st\<lparr>heap := (heap st)(sid := f (heap st sid))\<rparr>"

definition setPhase :: "nat \<Rightarrow> phase \<Rightarrow> engine \<Rightarrow> engine" where
  "setPhase sid p st = st\<lparr>phase := (phase st)(sid := p)\<rparr>"

definition cancelled :: "engine \<Rightarrow> nat \<Rightarrow> bool" where
  "cancelled st sid = isCancellationRequested (cancellation (heap st sid))"

text \<open>\<^verbatim>\<open>_scheduleDidChange\<close>\<close>

definition scheduleDidChange :: "engine \<Rightarrow> engine" where
  "scheduleDidChange st = st\<lparr>didChangeTriggers := Suc (didChangeTriggers st)\<rparr>"

text \<open>\<^verbatim>\<open>_clearSession(requestUuid, cancel)\<close>\<close>

definition clearSession :: "string \<Rightarrow> bool \<Rightarrow> engine \<Rightarrow> engine" where
  "clearSession key cancel st =
     (case sessions st key of
        None \<Rightarrow> st
      | Some sid \<Rightarrow>
          (let st1 = (if cancel \<and> \<not> cancelled st sid
                      then updSession sid (cancellation_update cts_cancel) st else st);
               st2 = updSession sid (cancellation_update cts_dispose) st1;
               st3 = st2\<lparr>sessions := (sessions st2)(key := None)\<rparr>
           in scheduleDidChange st3))"

text \<open>\<^verbatim>\<open>_throttle\<close>, in the two halves around its \<^verbatim>\<open>await\<close>: the wait it computes, and
  the assignment it ends with. \<open>now\<close> is the reading of \<^verbatim>\<open>Date.now()\<close>.\<close>

definition throttle_diff :: "int \<Rightarrow> engine \<Rightarrow> int" where
  "throttle_diff now st = MIN_REQUEST_INTERVAL - (now - lastRequestTimestamp st)"

definition throttle_end :: "int \<Rightarrow> engine \<Rightarrow> engine" where
  "throttle_end now st = st\<lparr>lastRequestTimestamp := now\<rparr>"

text \<open>The \<^verbatim>\<open>finally\<close> block of \<^verbatim>\<open>_requestCompletion\<close>.\<close>

definition requestCompletion_finally :: "nat \<Rightarrow> engine \<Rightarrow> engine" where
  "requestCompletion_finally sid st =
     (let st1 = updSession sid (cancellation_update cts_dispose) (setPhase sid Exited st)
      in if truthy (session_error (heap st1 sid)) then scheduleDidChange st1 else st1)"

text \<open>\<^verbatim>\<open>_requestCompletion\<close> from its start to its first suspension: with a positive
  \<open>diff\<close> inside \<^verbatim>\<open>_throttle\<close>, otherwise after \<^verbatim>\<open>_throttle\<close> has run through.\<close>

definition requestCompletion_start :: "nat \<Rightarrow> int \<Rightarrow> engine \<Rightarrow> engine" where
  "requestCompletion_start sid now st =
     (let diff = throttle_diff now st
      in if diff > 0 then setPhase sid (Throttling (now + diff)) st
         else setPhase sid (Throttled now) (throttle_end now st))"

text \<open>\<^verbatim>\<open>_requestCompletion\<close> once \<^verbatim>\<open>_throttle\<close> has returned: the cancellation check,
  then the request is built and issued. \<open>t\<close> is the timestamp \<^verbatim>\<open>_throttle\<close> wrote.\<close>

definition requestCompletion_afterThrottle :: "nat \<Rightarrow> int \<Rightarrow> engine \<Rightarrow> engine" where
  "requestCompletion_afterThrottle sid t st =
     (if cancelled st sid then requestCompletion_finally sid st
      else (setPhase sid Fetching st)\<lparr>dispatched := dispatched st @ [(sid, t)]\<rparr>)"

text \<open>
  Modelled from the spec: \<^verbatim>\<open>raceCancellation\<close> and \<^verbatim>\<open>timeout\<close>
  (util/vs/base/common/async) are not among the sources. The spec has the throttle suspend
  for the computed wait or until the token fires, whichever is first. So the wait of a
  driver whose timer is due at \<open>d\<close> is over at time \<open>now\<close> when the timer is due or the
  driver's token has fired.
\<close>

definition raceSettled :: "engine \<Rightarrow> nat \<Rightarrow> int \<Rightarrow> int \<Rightarrow> bool" where
  "raceSettled st sid d now \<longleftrightarrow> d \<le> now \<or> cancelled st sid"

text \<open>
  The driver of a session is resumed at time \<open>now\<close>. From \<open>Throttling d\<close>, once the wait
  is over, \<^verbatim>\<open>_throttle\<close> runs its last line, \<^verbatim>\<open>this._lastRequestTimestamp = Date.now()\<close>,
  and \<^verbatim>\<open>_requestCompletion\<close> goes on; from \<open>Throttled t\<close>, \<^verbatim>\<open>_throttle\<close> has run that
  line already.
\<close>

definition throttleWake :: "nat \<Rightarrow> int \<Rightarrow> engine \<Rightarrow> engine" where
  "throttleWake sid now st =
     (case phase st sid of
        Throttling d \<Rightarrow>
          (if raceSettled st sid d now
           then requestCompletion_afterThrottle sid now (throttle_end now st) else st)
      | Throttled t \<Rightarrow> requestCompletion_afterThrottle sid t st
      | Fetching \<Rightarrow> st
      | Exited \<Rightarrow> st)"

text \<open>\<^verbatim>\<open>finishedCb\<close>: the value it returns (\<open>Some 0\<close> asks the transport to stop) and
  the new state.\<close>

definition finishedCb :: "nat \<Rightarrow> string \<Rightarrow> string \<Rightarrow> engine \<Rightarrow> nat option \<times> engine" where
  "finishedCb sid txt delta st =
     (if cancelled st sid then (Some 0, st)
      else (None, if delta \<noteq> []
                  then scheduleDidChange (updSession sid (session_text_update (\<lambda>_. txt)) st)
                  else st))"

text \<open>
  Modelled from the spec: the transport (\<^verbatim>\<open>IChatMLFetcher.fetchOne\<close>) is not among the
  sources. The spec gives it a per-delta callback receiving cumulative text: the transport
  appends the delta to what it has streamed and calls \<^verbatim>\<open>finishedCb\<close> with the sum.
\<close>

definition deliverDelta :: "nat \<Rightarrow> string \<Rightarrow> engine \<Rightarrow> engine" where
  "deliverDelta sid delta st =
     (if phase st sid = Fetching
      then (let cum = streamed st sid @ delta
            in snd (finishedCb sid cum delta (st\<lparr>streamed := (streamed st)(sid := cum)\<rparr>)))
      else st)"

text \<open>\<^verbatim>\<open>_requestCompletion\<close> after \<^verbatim>\<open>fetchOne\<close> has resolved.\<close>

definition requestCompletion_resolved :: "nat \<Rightarrow> ChatResponse \<Rightarrow> engine \<Rightarrow> engine" where
  "requestCompletion_resolved sid response st =
     (if phase st sid = Fetching
      then requestCompletion_finally sid
        (case response of
           Success v \<Rightarrow>
             updSession sid (session_done_update (\<lambda>_. True))
               (if session_text (heap st sid) = []
                then scheduleDidChange (updSession sid (session_text_update (\<lambda>_. v)) st)
                else st)
         | Canceled \<Rightarrow> updSession sid (session_error_update (\<lambda>_. Some ''cancelled'')) st
         | Failed reason \<Rightarrow> updSession sid (session_error_update (\<lambda>_. Some reason)) st)
      else st)"

text \<open>\<^verbatim>\<open>_requestCompletion\<close> when the \<^verbatim>\<open>try\<close> block throws: the \<^verbatim>\<open>catch\<close> block with
  the message of the exception, then \<^verbatim>\<open>finally\<close>.\<close>

definition requestCompletion_threw :: "nat \<Rightarrow> string \<Rightarrow> engine \<Rightarrow> engine" where
  "requestCompletion_threw sid message st =
     (if phase st sid = Fetching
      then requestCompletion_finally sid
        (if \<not> cancelled st sid
         then updSession sid (session_error_update (\<lambda>_. Some message)) st else st)
      else st)"

subsection \<open>The host-facing operations\<close>

text \<open>The session object built by \<^verbatim>\<open>provideInlineCompletionItems\<close>.\<close>

definition newSession :: "string \<Rightarrow> TextDocument \<Rightarrow> Position \<Rightarrow> CompletionSession" where
  "newSession key document pos =
     \<lparr>requestUuid = key, documentUri = uri document, documentVersion = version document,
      position = pos, session_range = \<lparr>range_start = pos, range_end = pos\<rparr>,
      cancellation = \<lparr>isCancellationRequested = False, disposeCalls = 0\<rparr>,
      session_text = [], session_done = False, session_error = None\<rparr>"

text \<open>The branch \<^verbatim>\<open>if (!session)\<close>: allocate, register, attach to the host's token
  \<open>tok\<close>, start the driver.\<close>

definition createSession ::
  "string \<Rightarrow> TextDocument \<Rightarrow> Position \<Rightarrow> nat \<Rightarrow> int \<Rightarrow> engine \<Rightarrow> engine" where
  "createSession key document pos tok now st =
     (let sid = nextSid st;
          st1 = st\<lparr>heap := (heap st)(sid := newSession key document pos),
                   nextSid := Suc sid,
                   streamed := (streamed st)(sid := [])\<rparr>;
          st2 = st1\<lparr>sessions := (sessions st1)(key \<mapsto> sid)\<rparr>;
          st3 = st2\<lparr>listeners := listeners st2 @ [(tok, CancelSource sid), (tok, ClearSessionKey key)]\<rparr>
      in requestCompletion_start sid now st3)"

text \<open>The list returned for a session that has text.\<close>

definition completionList :: "CompletionSession \<Rightarrow> InlineCompletionList" where
  "completionList s =
     \<lparr>items = [\<lparr>insertText = session_text s, item_range = session_range s,
                correlationId = Some (requestUuid s)\<rparr>],
      enableForwardStability = True\<rparr>"

text \<open>\<^verbatim>\<open>provideInlineCompletionItems\<close> from the lookup on, for the key \<open>key\<close>.\<close>

definition lookupAndServe ::
  "string \<Rightarrow> TextDocument \<Rightarrow> Position \<Rightarrow> nat \<Rightarrow> int \<Rightarrow> engine \<Rightarrow> poll_result \<times> engine" where
  "lookupAndServe key document pos tok now st =
     (let (session, st1) =
            (case sessions st key of
               None \<Rightarrow> (None, st)
             | Some sid \<Rightarrow>
                 if documentVersion (heap st sid) \<noteq> version document
                 then (None, clearSession (requestUuid (heap st sid)) True st)
                 else (Some sid, st))
      in case session of
           None \<Rightarrow> (Returned None, createSession key document pos tok now st1)
         | Some sid \<Rightarrow>
             if truthy (session_error (heap st1 sid))
             then (Returned None, clearSession (requestUuid (heap st1 sid)) True st1)
             else if session_text (heap st1 sid) = [] then (Returned None, st1)
             else (Returned (Some (completionList (heap st1 sid))), st1))"

definition provideInlineCompletionItems ::
  "TextDocument \<Rightarrow> Position \<Rightarrow> InlineCompletionContext \<Rightarrow> nat \<Rightarrow> int \<Rightarrow> engine
     \<Rightarrow> poll_result \<times> engine" where
  "provideInlineCompletionItems document pos ctx tok now st =
     (if \<not> isLanguageEnabled (enabledLanguages st) document then (Returned None, st)
      else case isAtMidWord document pos of
             None \<Rightarrow> (Raised, st)
           | Some True \<Rightarrow> (Returned None, st)
           | Some False \<Rightarrow> lookupAndServe (requestKey ctx document pos) document pos tok now st)"

text \<open>\<^verbatim>\<open>handleEndOfLifetime\<close> and \<^verbatim>\<open>handleListEndOfLifetime\<close>; the test
  \<^verbatim>\<open>if (correlationId)\<close> is a truthiness test.\<close>

definition handleEndOfLifetime :: "InlineCompletionItem \<Rightarrow> engine \<Rightarrow> engine" where
  "handleEndOfLifetime completionItem st =
     (if truthy (correlationId completionItem)
      then clearSession (the (correlationId completionItem)) False st else st)"

definition handleListEndOfLifetime :: "InlineCompletionList \<Rightarrow> engine \<Rightarrow> engine" where
  "handleListEndOfLifetime list st =
     (case items list of
        [] \<Rightarrow> st
      | item # _ \<Rightarrow>
          (if truthy (correlationId item)
           then clearSession (the (correlationId item)) False st else st))"

text \<open>
  Modelled from the spec: the host's cancellation token is not among the sources. When it
  fires, its listeners run in registration order and are gone afterwards. The parent link of
  a handle that has been disposed is detached and does nothing.
\<close>

fun runListener :: "listener \<Rightarrow> engine \<Rightarrow> engine" where
  "runListener (CancelSource sid) st =
     (if disposeCalls (cancellation (heap st sid)) = 0
      then updSession sid (cancellation_update cts_cancel) st else st)"
| "runListener (ClearSessionKey key) st = clearSession key True st"

definition hostTokenFired :: "nat \<Rightarrow> engine \<Rightarrow> engine" where
  "hostTokenFired tok st =
     fold runListener (map snd (filter (\<lambda>p. fst p = tok) (listeners st)))
       (st\<lparr>listeners := filter (\<lambda>p. fst p \<noteq> tok) (listeners st)\<rparr>)"

subsection \<open>Events and traces\<close>

datatype event =
    Poll TextDocument Position InlineCompletionContext nat int
  | EndOfLifetime InlineCompletionItem
  | ListEndOfLifetime InlineCompletionList
  | HostTokenFired nat
  | ThrottleWake nat int
  | Delta nat string
  | Resolved nat ChatResponse
  | Threw nat string

fun step :: "event \<Rightarrow> engine \<Rightarrow> engine" where
  "step (Poll document pos ctx tok now) st =
     snd (provideInlineCompletionItems document pos ctx tok now st)"
| "step (EndOfLifetime completionItem) st = handleEndOfLifetime completionItem st"
| "step (ListEndOfLifetime list) st = handleListEndOfLifetime list st"
| "step (HostTokenFired tok) st = hostTokenFired tok st"
| "step (ThrottleWake sid now) st = throttleWake sid now st"
| "step (Delta sid delta) st = deliverDelta sid delta st"
| "step (Resolved sid response) st = requestCompletion_resolved sid response st"
| "step (Threw sid message) st = requestCompletion_threw sid message st"

definition run :: "event list \<Rightarrow> engine \<Rightarrow> engine" where
  "run es st = fold step es st"

text \<open>What \<^verbatim>\<open>_clearSession\<close> does to the session object: \<^verbatim>\<open>cancel()\<close> when asked to, then
  \<^verbatim>\<open>dispose()\<close>. With \<open>False\<close> it is the bare \<^verbatim>\<open>dispose()\<close> of the \<^verbatim>\<open>finally\<close> block.\<close>

definition cleared :: "bool \<Rightarrow> CompletionSession \<Rightarrow> CompletionSession" where
  "cleared cancel s =
     cancellation_update (\<lambda>c. cts_dispose (if cancel then cts_cancel c else c)) s"

subsection \<open>Invariants of the reachable states\<close>

text \<open>A registered reference is allocated, and the object it points to carries the key it is
  registered under.\<close>

definition registry_ok :: "engine \<Rightarrow> bool" where
  "registry_ok st \<longleftrightarrow>
     (\<forall>key sid. sessions st key = Some sid \<longrightarrow> sid < nextSid st \<and> requestUuid (heap st sid) = key)"

text \<open>The session object is the one the registry holds under its key.\<close>

definition registered :: "engine \<Rightarrow> nat \<Rightarrow> bool" where
  "registered st sid \<longleftrightarrow> sessions st (requestUuid (heap st sid)) = Some sid"

text \<open>The number of \<^verbatim>\<open>dispose()\<close> calls on a session's handle: one from the \<^verbatim>\<open>finally\<close>
  block once the driver has exited, one from \<^verbatim>\<open>_clearSession\<close> once the session has left
  the registry.\<close>

definition dispose_inv :: "engine \<Rightarrow> bool" where
  "dispose_inv st \<longleftrightarrow>
     (\<forall>sid<nextSid st.
        disposeCalls (cancellation (heap st sid)) =
          (if phase st sid = Exited then 1 else 0) + (if registered st sid then 0 else 1))"

text \<open>While the driver runs, the session's text is a prefix of what the transport has
  streamed.\<close>

definition text_inv :: "engine \<Rightarrow> bool" where
  "text_inv st \<longleftrightarrow>
     (\<forall>sid. phase st sid \<noteq> Exited \<longrightarrow> prefix (session_text (heap st sid)) (streamed st sid))"

definition engine_inv :: "engine \<Rightarrow> bool" where
  "engine_inv st \<longleftrightarrow> registry_ok st \<and> dispose_inv st \<and> text_inv st"

text \<open>An error is recorded only by a driver that has exited, and never together with
  \<^verbatim>\<open>done\<close>.\<close>

definition error_inv :: "engine \<Rightarrow> bool" where
  "error_inv st \<longleftrightarrow>
     (\<forall>i. (phase st i \<noteq> Exited \<longrightarrow>
             session_error (heap st i) = None \<and> \<not> session_done (heap st i))
        \<and> (session_done (heap st i) \<longrightarrow> session_error (heap st i) = None))"

subsection \<open>What the host sees, and how sessions evolve\<close>

text \<open>The text a call shows to the host; nothing shown counts as the empty text.\<close>

definition shownText :: "poll_result \<Rightarrow> string" where
  "shownText r = (case r of Returned (Some l) \<Rightarrow> concat (map insertText (items l)) | _ \<Rightarrow> [])"

text \<open>From one state to a later one: no reference is lost, the configuration stays, and
  for every allocated session the text has grown by prefix extension and the document
  version is the same.\<close>

definition grows :: "engine \<Rightarrow> engine \<Rightarrow> bool" where
  "grows st st' \<longleftrightarrow> nextSid st \<le> nextSid st' \<and> enabledLanguages st' = enabledLanguages st \<and>
     (\<forall>i<nextSid st. prefix (session_text (heap st i)) (session_text (heap st' i))
        \<and> documentVersion (heap st' i) = documentVersion (heap st i))"

subsection \<open>Concrete inputs\<close>

text \<open>A one-line document in two versions, a cursor between its two words (the next
  character is a blank, so the position is not inside a word), and a trigger context
  carrying a host-supplied request identity.\<close>

definition doc_v1 :: TextDocument where
  "doc_v1 = \<lparr>uri = ''file:///a.ts'', version = 1, languageId = ''typescript'',
             lines = [''foo bar'']\<rparr>"

definition doc_v2 :: TextDocument where
  "doc_v2 = \<lparr>uri = ''file:///a.ts'', version = 2, languageId = ''typescript'',
             lines = [''foo  bar'']\<rparr>"

definition cursor :: Position where
  "cursor = \<lparr>line = 0, character = 3\<rparr>"

text \<open>A cursor inside the first word: the next character is a letter.\<close>

definition mid_word :: Position where
  "mid_word = \<lparr>line = 0, character = 1\<rparr>"

definition keyed :: "string \<Rightarrow> InlineCompletionContext" where
  "keyed k = \<lparr>ctx_requestUuid = Some k, userPrompt = None\<rparr>"

text \<open>Traces from the freshly constructed provider. The first trigger finds
  \<^verbatim>\<open>_lastRequestTimestamp = 0\<close> and does not wait.\<close>

definition started :: "event list" where
  "started = [Poll doc_v1 cursor (keyed ''k'') 0 1000, ThrottleWake 0 1000]"

definition streaming_abc :: "event list" where
  "streaming_abc = started @ [Delta 0 ''abc'']"

definition streaming_func :: "event list" where
  "streaming_func = started @ [Delta 0 ''func'']"

definition failed :: "event list" where
  "failed = started @ [Resolved 0 (Failed ''rate_limited'')]"

definition succeeded :: "event list" where
  "succeeded = streaming_abc @ [Resolved 0 (Success ''abc'')]"

text \<open>A second trigger 10 ms after the first dispatch has to wait until 1075; the host
  cancels its token (token 1) while it waits.\<close>

definition cancelled_wait :: "event list" where
  "cancelled_wait =
     [Poll doc_v1 cursor (keyed ''a'') 0 1000, ThrottleWake 0 1000,
      Poll doc_v1 cursor (keyed ''b'') 1 1010, HostTokenFired 1]"

text \<open>Two further triggers, 10 ms and 20 ms after the first dispatch, both wait until 1075
  and both wake then.\<close>

definition burst :: "event list" where
  "burst =
     [Poll doc_v1 cursor (keyed ''a'') 0 1000, ThrottleWake 0 1000,
      Poll doc_v1 cursor (keyed ''b'') 1 1010, Poll doc_v1 cursor (keyed ''c'') 2 1020,
      ThrottleWake 1 1075, ThrottleWake 2 1075]"

text \<open>The item shown for the session with key \<open>k\<close>.\<close>

definition shown_item :: InlineCompletionItem where
  "shown_item = \<lparr>insertText = ''abc'',
                  item_range = \<lparr>range_start = cursor, range_end = cursor\<rparr>,
                  correlationId = Some ''k''\<rparr>"

section \<open>Basic facts about the operations\<close>

lemma updSession_fields [simp]:
  "sessions (updSession sid f st) = sessions st"
  "heap (updSession sid f st) = (heap st)(sid := f (heap st sid))"
  "nextSid (updSession sid f st) = nextSid st"
  "lastRequestTimestamp (updSession sid f st) = lastRequestTimestamp st"
  "didChangeTriggers (updSession sid f st) = didChangeTriggers st"
  "enabledLanguages (updSession sid f st) = enabledLanguages st"
  "phase (updSession sid f st) = phase st"
  "streamed (updSession sid f st) = streamed st"
  "listeners (updSession sid f st) = listeners st"
  "dispatched (updSession sid f st) = dispatched st"
  by (simp_all add: updSession_def)

lemma setPhase_fields [simp]:
  "sessions (setPhase sid p st) = sessions st"
  "heap (setPhase sid p st) = heap st"
  "nextSid (setPhase sid p st) = nextSid st"
  "lastRequestTimestamp (setPhase sid p st) = lastRequestTimestamp st"
  "didChangeTriggers (setPhase sid p st) = didChangeTriggers st"
  "enabledLanguages (setPhase sid p st) = enabledLanguages st"
  "phase (setPhase sid p st) = (phase st)(sid := p)"
  "streamed (setPhase sid p st) = streamed st"
  "listeners (setPhase sid p st) = listeners st"
  "dispatched (setPhase sid p st) = dispatched st"
  by (simp_all add: setPhase_def)

lemma scheduleDidChange_fields [simp]:
  "sessions (scheduleDidChange st) = sessions st"
  "heap (scheduleDidChange st) = heap st"
  "nextSid (scheduleDidChange st) = nextSid st"
  "lastRequestTimestamp (scheduleDidChange st) = lastRequestTimestamp st"
  "didChangeTriggers (scheduleDidChange st) = Suc (didChangeTriggers st)"
  "enabledLanguages (scheduleDidChange st) = enabledLanguages st"
  "phase (scheduleDidChange st) = phase st"
  "streamed (scheduleDidChange st) = streamed st"
  "listeners (scheduleDidChange st) = listeners st"
  "dispatched (scheduleDidChange st) = dispatched st"
  by (simp_all add: scheduleDidChange_def)

lemma throttle_end_fields [simp]:
  "sessions (throttle_end now st) = sessions st"
  "heap (throttle_end now st) = heap st"
  "nextSid (throttle_end now st) = nextSid st"
  "lastRequestTimestamp (throttle_end now st) = now"
  "didChangeTriggers (throttle_end now st) = didChangeTriggers st"
  "enabledLanguages (throttle_end now st) = enabledLanguages st"
  "phase (throttle_end now st) = phase st"
  "streamed (throttle_end now st) = streamed st"
  "listeners (throttle_end now st) = listeners st"
  "dispatched (throttle_end now st) = dispatched st"
  by (simp_all add: throttle_end_def)

lemma cancelled_simps [simp]:
  "cancelled (setPhase sid p st) = cancelled st"
  "cancelled (scheduleDidChange st) = cancelled st"
  "cancelled (throttle_end now st) = cancelled st"
  by (simp_all add: cancelled_def fun_eq_iff)

lemma cts_simps [simp]:
  "isCancellationRequested (cts_cancel c) = True"
  "disposeCalls (cts_cancel c) = disposeCalls c"
  "isCancellationRequested (cts_dispose c) = isCancellationRequested c"
  "disposeCalls (cts_dispose c) = Suc (disposeCalls c)"
  by (simp_all add: cts_cancel_def cts_dispose_def)

lemma clearSession_None [simp]: "sessions st key = None \<Longrightarrow> clearSession key cancel st = st"
  by (simp add: clearSession_def)

lemma cts_cancel_idem: "isCancellationRequested c \<Longrightarrow> cts_cancel c = c"
  by (simp add: cts_cancel_def)

lemma clearSession_fields [simp]:
  "sessions (clearSession key cancel st) = (sessions st)(key := None)"
  "nextSid (clearSession key cancel st) = nextSid st"
  "lastRequestTimestamp (clearSession key cancel st) = lastRequestTimestamp st"
  "enabledLanguages (clearSession key cancel st) = enabledLanguages st"
  "phase (clearSession key cancel st) = phase st"
  "streamed (clearSession key cancel st) = streamed st"
  "listeners (clearSession key cancel st) = listeners st"
  "dispatched (clearSession key cancel st) = dispatched st"
  by (auto simp: clearSession_def Let_def split: option.splits)

lemma clearSession_heap:
  "heap (clearSession key cancel st) =
     (case sessions st key of None \<Rightarrow> heap st
      | Some sid \<Rightarrow> (heap st)(sid := cleared cancel (heap st sid)))"
  by (auto simp: clearSession_def Let_def cleared_def cancelled_def cts_cancel_idem fun_eq_iff split: option.splits)

lemma cleared_fields [simp]:
  "requestUuid (cleared c s) = requestUuid s"
  "documentVersion (cleared c s) = documentVersion s"
  "session_text (cleared c s) = session_text s"
  "session_done (cleared c s) = session_done s"
  "session_error (cleared c s) = session_error s"
  "disposeCalls (cancellation (cleared c s)) = Suc (disposeCalls (cancellation s))"
  "isCancellationRequested (cancellation (cleared c s)) = (c \<or> isCancellationRequested (cancellation s))"
  by (simp_all add: cleared_def)

lemma clearSession_Some:
  "sessions st key = Some sid \<Longrightarrow>
     heap (clearSession key c st) = (heap st)(sid := cleared c (heap st sid))"
  by (simp add: clearSession_heap)

lemma registry_ok_clearSession: "registry_ok st \<Longrightarrow> registry_ok (clearSession key c st)"
proof (cases "sessions st key")
  case None
  assume "registry_ok st" with None show ?thesis by simp
next
  case (Some sid)
  assume w: "registry_ok st"
  show ?thesis
    unfolding registry_ok_def
  proof (intro allI impI)
    fix k i assume a: "sessions (clearSession key c st) k = Some i"
    then have ki: "k \<noteq> key" "sessions st k = Some i" by (auto split: if_splits)
    with w have "i < nextSid st" "requestUuid (heap st i) = k" by (auto simp: registry_ok_def)
    then show "i < nextSid (clearSession key c st) \<and> requestUuid (heap (clearSession key c st) i) = k"
      by (auto simp: clearSession_Some [OF Some])
  qed
qed

lemma registered_clearSession:
  assumes w: "registry_ok st"
  shows "registered (clearSession key c st) i \<longleftrightarrow> registered st i \<and> sessions st key \<noteq> Some i"
proof (cases "sessions st key")
  case None
  then show ?thesis by simp
next
  case (Some sid)
  from w Some have u: "requestUuid (heap st sid) = key" by (simp add: registry_ok_def)
  have r: "requestUuid (heap (clearSession key c st) i) = requestUuid (heap st i)"
    by (simp add: clearSession_Some [OF Some])
  show ?thesis
  proof (cases "requestUuid (heap st i) = key")
    case True
    then show ?thesis using Some by (auto simp: registered_def r)
  next
    case False
    then have "i \<noteq> sid" using u by auto
    with False show ?thesis using Some by (simp add: registered_def r)
  qed
qed

lemma dispose_inv_clearSession:
  assumes w: "registry_ok st" and d: "dispose_inv st"
  shows "dispose_inv (clearSession key c st)"
proof (cases "sessions st key")
  case None
  with d show ?thesis by simp
next
  case (Some sid)
  from w Some have u: "requestUuid (heap st sid) = key" by (simp add: registry_ok_def)
  show ?thesis
    unfolding dispose_inv_def
  proof (intro allI impI)
    fix i assume "i < nextSid (clearSession key c st)"
    then have lt: "i < nextSid st" by simp
    from d lt have old: "disposeCalls (cancellation (heap st i)) =
          (if phase st i = Exited then 1 else 0) + (if registered st i then 0 else 1)"
      by (simp add: dispose_inv_def)
    show "disposeCalls (cancellation (heap (clearSession key c st) i)) =
          (if phase (clearSession key c st) i = Exited then 1 else 0)
          + (if registered (clearSession key c st) i then 0 else 1)"
    proof (cases "i = sid")
      case True
      have "registered st sid" using Some u by (simp add: registered_def)
      then show ?thesis using old True Some
        by (simp add: registered_clearSession [OF w] clearSession_Some [OF Some])
    next
      case False
      then show ?thesis using old Some
        by (simp add: registered_clearSession [OF w] clearSession_Some [OF Some])
    qed
  qed
qed

lemma text_inv_clearSession: "text_inv st \<Longrightarrow> text_inv (clearSession key c st)"
  by (cases "sessions st key") (simp_all add: text_inv_def clearSession_Some)

lemma finally_fields [simp]:
  "sessions (requestCompletion_finally sid st) = sessions st"
  "nextSid (requestCompletion_finally sid st) = nextSid st"
  "lastRequestTimestamp (requestCompletion_finally sid st) = lastRequestTimestamp st"
  "enabledLanguages (requestCompletion_finally sid st) = enabledLanguages st"
  "phase (requestCompletion_finally sid st) = (phase st)(sid := Exited)"
  "streamed (requestCompletion_finally sid st) = streamed st"
  "listeners (requestCompletion_finally sid st) = listeners st"
  "dispatched (requestCompletion_finally sid st) = dispatched st"
  "heap (requestCompletion_finally sid st) = (heap st)(sid := cleared False (heap st sid))"
  by (simp_all add: requestCompletion_finally_def Let_def cleared_def)

lemma registry_ok_finally: "registry_ok st \<Longrightarrow> registry_ok (requestCompletion_finally sid st)"
  by (simp add: registry_ok_def)

lemma dispose_inv_finally:
  "dispose_inv st \<Longrightarrow> phase st sid \<noteq> Exited \<Longrightarrow> dispose_inv (requestCompletion_finally sid st)"
  by (simp add: dispose_inv_def registered_def)

lemma text_inv_finally: "text_inv st \<Longrightarrow> text_inv (requestCompletion_finally sid st)"
  by (simp add: text_inv_def)

lemma engine_inv_clearSession: "engine_inv st \<Longrightarrow> engine_inv (clearSession key c st)"
  by (simp add: engine_inv_def registry_ok_clearSession dispose_inv_clearSession text_inv_clearSession)

lemma engine_inv_finally: "engine_inv st \<Longrightarrow> phase st sid \<noteq> Exited \<Longrightarrow> engine_inv (requestCompletion_finally sid st)"
  by (simp add: engine_inv_def registry_ok_finally dispose_inv_finally text_inv_finally)

lemma registry_ok_frame:
  assumes "nextSid st' = nextSid st" "sessions st' = sessions st"
    and "\<And>i. requestUuid (heap st' i) = requestUuid (heap st i)"
  shows "registry_ok st' = registry_ok st"
  unfolding registry_ok_def using assms by simp

lemma dispose_inv_frame:
  assumes "nextSid st' = nextSid st" "sessions st' = sessions st"
    and "\<And>i. requestUuid (heap st' i) = requestUuid (heap st i)"
    and "\<And>i. disposeCalls (cancellation (heap st' i)) = disposeCalls (cancellation (heap st i))"
    and "\<And>i. (phase st' i = Exited) = (phase st i = Exited)"
  shows "dispose_inv st' = dispose_inv st"
  unfolding dispose_inv_def registered_def using assms by simp

lemma engine_inv_throttle_end: "engine_inv (throttle_end now st) = engine_inv st"
  by (simp add: engine_inv_def registry_ok_def dispose_inv_def text_inv_def registered_def)

lemma registry_ok_dispatch:
  "registry_ok ((setPhase sid Fetching st)\<lparr>dispatched := d\<rparr>) = registry_ok st"
  by (simp add: registry_ok_def)

lemma dispose_inv_dispatch:
  "phase st sid \<noteq> Exited \<Longrightarrow>
   dispose_inv ((setPhase sid Fetching st)\<lparr>dispatched := d\<rparr>) = dispose_inv st"
  by (rule dispose_inv_frame) auto

lemma text_inv_dispatch:
  "text_inv st \<Longrightarrow> phase st sid \<noteq> Exited \<Longrightarrow>
   text_inv ((setPhase sid Fetching st)\<lparr>dispatched := d\<rparr>)"
  by (simp add: text_inv_def)

lemma engine_inv_afterThrottle:
  "engine_inv st \<Longrightarrow> phase st sid \<noteq> Exited \<Longrightarrow> engine_inv (requestCompletion_afterThrottle sid t st)"
  by (simp add: requestCompletion_afterThrottle_def engine_inv_finally)
     (simp add: engine_inv_def registry_ok_dispatch dispose_inv_dispatch text_inv_dispatch)

lemma engine_inv_throttleWake: "engine_inv st \<Longrightarrow> engine_inv (throttleWake sid now st)"
  by (cases "phase st sid") (simp_all add: throttleWake_def engine_inv_afterThrottle engine_inv_throttle_end)

lemma engine_inv_deliverDelta: "engine_inv st \<Longrightarrow> engine_inv (deliverDelta sid delta st)"
proof (cases "phase st sid = Fetching")
  case False
  assume "engine_inv st" with False show ?thesis by (simp add: deliverDelta_def)
next
  case True
  assume i: "engine_inv st"
  let ?cum = "streamed st sid @ delta"
  let ?st1 = "st\<lparr>streamed := (streamed st)(sid := ?cum)\<rparr>"
  from i True have p: "prefix (session_text (heap st sid)) (streamed st sid)"
    by (simp add: engine_inv_def text_inv_def)
  have w1: "registry_ok ?st1 = registry_ok st" by (rule registry_ok_frame) simp_all
  have d1: "dispose_inv ?st1 = dispose_inv st" by (rule dispose_inv_frame) simp_all
  have t1: "text_inv ?st1" using i p by (auto simp: engine_inv_def text_inv_def)
  let ?st2 = "scheduleDidChange (updSession sid (session_text_update (\<lambda>_. ?cum)) ?st1)"
  have w2: "registry_ok ?st2 = registry_ok st" by (rule registry_ok_frame) simp_all
  have d2: "dispose_inv ?st2 = dispose_inv st" by (rule dispose_inv_frame) simp_all
  have t2: "text_inv ?st2" using i by (auto simp: engine_inv_def text_inv_def)
  show ?thesis using True i w1 d1 t1 w2 d2 t2
    by (simp add: deliverDelta_def finishedCb_def Let_def engine_inv_def cancelled_def)
qed

lemma engine_inv_finally_after:
  assumes i: "engine_inv st" and ph: "phase st sid \<noteq> Exited"
    and f: "sessions st' = sessions st" "nextSid st' = nextSid st" "phase st' = phase st"
      "streamed st' = streamed st"
    and h: "\<And>j. j \<noteq> sid \<Longrightarrow> heap st' j = heap st j"
    and u: "requestUuid (heap st' sid) = requestUuid (heap st sid)"
    and c: "cancellation (heap st' sid) = cancellation (heap st sid)"
  shows "engine_inv (requestCompletion_finally sid st')"
proof -
  have uu: "requestUuid (heap st' j) = requestUuid (heap st j)" for j
    using h u by (cases "j = sid") auto
  have cc: "cancellation (heap st' j) = cancellation (heap st j)" for j
    using h c by (cases "j = sid") auto
  have w: "registry_ok (requestCompletion_finally sid st') = registry_ok (requestCompletion_finally sid st)"
    by (rule registry_ok_frame) (simp_all add: f uu)
  have d: "dispose_inv (requestCompletion_finally sid st') = dispose_inv (requestCompletion_finally sid st)"
    by (rule dispose_inv_frame) (simp_all add: f uu cc cleared_def)
  have t: "text_inv (requestCompletion_finally sid st')"
    using i h by (simp add: engine_inv_def text_inv_def f)
  from engine_inv_finally [OF i ph] w d t show ?thesis
    by (simp add: engine_inv_def)
qed

lemma engine_inv_resolved: "engine_inv st \<Longrightarrow> engine_inv (requestCompletion_resolved sid response st)"
proof (cases "phase st sid = Fetching")
  case False
  assume "engine_inv st" with False show ?thesis by (simp add: requestCompletion_resolved_def)
next
  case True
  assume i: "engine_inv st"
  from True have ph: "phase st sid \<noteq> Exited" by simp
  show ?thesis
    using True
    by (cases response)
       (auto simp: requestCompletion_resolved_def intro!: engine_inv_finally_after [OF i ph])
qed

lemma engine_inv_threw: "engine_inv st \<Longrightarrow> engine_inv (requestCompletion_threw sid message st)"
proof (cases "phase st sid = Fetching")
  case False
  assume "engine_inv st" with False show ?thesis by (simp add: requestCompletion_threw_def)
next
  case True
  assume i: "engine_inv st"
  from True have ph: "phase st sid \<noteq> Exited" by simp
  show ?thesis
    using True
    by (auto simp: requestCompletion_threw_def intro!: engine_inv_finally_after [OF i ph])
qed

lemma createSession_fields [simp]:
  "sessions (createSession key document pos tok now st) = (sessions st)(key \<mapsto> nextSid st)"
  "nextSid (createSession key document pos tok now st) = Suc (nextSid st)"
  "heap (createSession key document pos tok now st) =
     (heap st)(nextSid st := newSession key document pos)"
  "phase (createSession key document pos tok now st) =
     (phase st)(nextSid st :=
        (if throttle_diff now st > 0 then Throttling (now + throttle_diff now st)
         else Throttled now))"
  "streamed (createSession key document pos tok now st) = (streamed st)(nextSid st := [])"
  "listeners (createSession key document pos tok now st) =
     listeners st @ [(tok, CancelSource (nextSid st)), (tok, ClearSessionKey key)]"
  "lastRequestTimestamp (createSession key document pos tok now st) =
     (if throttle_diff now st > 0 then lastRequestTimestamp st else now)"
  "dispatched (createSession key document pos tok now st) = dispatched st"
  "enabledLanguages (createSession key document pos tok now st) = enabledLanguages st"
  by (simp_all add: createSession_def requestCompletion_start_def Let_def throttle_diff_def)

lemma newSession_fields [simp]:
  "requestUuid (newSession key document pos) = key"
  "documentVersion (newSession key document pos) = version document"
  "session_text (newSession key document pos) = []"
  "session_done (newSession key document pos) = False"
  "session_error (newSession key document pos) = None"
  "cancellation (newSession key document pos) = \<lparr>isCancellationRequested = False, disposeCalls = 0\<rparr>"
  by (simp_all add: newSession_def)

lemma registry_ok_createSession:
  "registry_ok st \<Longrightarrow> registry_ok (createSession key document pos tok now st)"
  unfolding registry_ok_def
proof (intro allI impI)
  fix k i
  assume w: "\<forall>key sid. sessions st key = Some sid \<longrightarrow> sid < nextSid st \<and> requestUuid (heap st sid) = key"
    and a: "sessions (createSession key document pos tok now st) k = Some i"
  show "i < nextSid (createSession key document pos tok now st) \<and>
        requestUuid (heap (createSession key document pos tok now st) i) = k"
  proof (cases "k = key")
    case True
    with a show ?thesis by simp
  next
    case False
    with a have "sessions st k = Some i" by simp
    with w have "i < nextSid st" "requestUuid (heap st i) = k" by auto
    then show ?thesis by simp
  qed
qed

lemma dispose_inv_createSession:
  assumes w: "registry_ok st" and d: "dispose_inv st" and n: "sessions st key = None"
  shows "dispose_inv (createSession key document pos tok now st)"
  unfolding dispose_inv_def
proof (intro allI impI)
  fix i
  let ?st' = "createSession key document pos tok now st"
  assume "i < nextSid ?st'"
  then have le: "i \<le> nextSid st" by simp
  show "disposeCalls (cancellation (heap ?st' i)) =
        (if phase ?st' i = Exited then 1 else 0) + (if registered ?st' i then 0 else 1)"
  proof (cases "i = nextSid st")
    case True
    then show ?thesis by (simp add: registered_def)
  next
    case False
    with le have lt: "i < nextSid st" by simp
    from d lt have old: "disposeCalls (cancellation (heap st i)) =
          (if phase st i = Exited then 1 else 0) + (if registered st i then 0 else 1)"
      by (simp add: dispose_inv_def)
    have "registered ?st' i = registered st i"
      using False n by (auto simp: registered_def)
    with old False show ?thesis by simp
  qed
qed

lemma text_inv_createSession:
  "text_inv st \<Longrightarrow> text_inv (createSession key document pos tok now st)"
  by (simp add: text_inv_def)

lemma engine_inv_createSession:
  "engine_inv st \<Longrightarrow> sessions st key = None \<Longrightarrow>
   engine_inv (createSession key document pos tok now st)"
  by (simp add: engine_inv_def registry_ok_createSession dispose_inv_createSession
      text_inv_createSession)

lemma engine_inv_lookupAndServe:
  assumes i: "engine_inv st"
  shows "engine_inv (snd (lookupAndServe key document pos tok now st))"
proof (cases "sessions st key")
  case None
  with i show ?thesis by (simp add: lookupAndServe_def engine_inv_createSession)
next
  case (Some sid)
  from i Some have u: "requestUuid (heap st sid) = key"
    by (simp add: engine_inv_def registry_ok_def)
  show ?thesis
  proof (cases "documentVersion (heap st sid) \<noteq> version document")
    case True
    have "engine_inv (createSession key document pos tok now (clearSession key True st))"
      by (rule engine_inv_createSession) (simp_all add: engine_inv_clearSession i)
    with True Some u show ?thesis by (simp add: lookupAndServe_def)
  next
    case False
    with Some u i show ?thesis by (simp add: lookupAndServe_def engine_inv_clearSession)
  qed
qed

lemma engine_inv_provide:
  "engine_inv st \<Longrightarrow> engine_inv (snd (provideInlineCompletionItems document pos ctx tok now st))"
  by (simp add: provideInlineCompletionItems_def engine_inv_lookupAndServe
      split: option.splits bool.splits)

lemma engine_inv_runListener: "engine_inv st \<Longrightarrow> engine_inv (runListener l st)"
proof (cases l)
  case (CancelSource sid)
  assume i: "engine_inv st"
  let ?st' = "updSession sid (cancellation_update cts_cancel) st"
  have w: "registry_ok ?st' = registry_ok st" by (rule registry_ok_frame) simp_all
  have d: "dispose_inv ?st' = dispose_inv st" by (rule dispose_inv_frame) simp_all
  have t: "text_inv ?st'" using i by (simp add: engine_inv_def text_inv_def)
  from i w d t CancelSource show ?thesis by (simp add: engine_inv_def)
next
  case (ClearSessionKey key)
  assume "engine_inv st"
  with ClearSessionKey show ?thesis by (simp add: engine_inv_clearSession)
qed

lemma engine_inv_fold_runListener:
  "engine_inv st \<Longrightarrow> engine_inv (fold runListener ls st)"
  by (induction ls arbitrary: st) (simp_all add: engine_inv_runListener)

lemma engine_inv_hostTokenFired: "engine_inv st \<Longrightarrow> engine_inv (hostTokenFired tok st)"
proof -
  assume i: "engine_inv st"
  let ?st' = "st\<lparr>listeners := filter (\<lambda>p. fst p \<noteq> tok) (listeners st)\<rparr>"
  have w: "registry_ok ?st' = registry_ok st" by (rule registry_ok_frame) simp_all
  have d: "dispose_inv ?st' = dispose_inv st" by (rule dispose_inv_frame) simp_all
  have t: "text_inv ?st'" using i by (simp add: engine_inv_def text_inv_def)
  from i w d t have "engine_inv ?st'" by (simp add: engine_inv_def)
  then show ?thesis unfolding hostTokenFired_def by (rule engine_inv_fold_runListener)
qed

lemma engine_inv_step: "engine_inv st \<Longrightarrow> engine_inv (step e st)"
  by (cases e)
     (simp_all add: engine_inv_provide handleEndOfLifetime_def handleListEndOfLifetime_def
        engine_inv_clearSession engine_inv_hostTokenFired engine_inv_throttleWake engine_inv_deliverDelta
        engine_inv_resolved engine_inv_threw split: list.splits)

lemma engine_inv_run: "engine_inv st \<Longrightarrow> engine_inv (run es st)"
  unfolding run_def by (induction es arbitrary: st) (simp_all add: engine_inv_step)

lemma engine_inv_init: "engine_inv (init cfg)"
  by (simp add: engine_inv_def registry_ok_def dispose_inv_def text_inv_def init_def)

lemma provide_passed:
  "isLanguageEnabled (enabledLanguages st) document \<Longrightarrow> isAtMidWord document pos = Some False \<Longrightarrow>
   provideInlineCompletionItems document pos ctx tok now st =
     lookupAndServe (requestKey ctx document pos) document pos tok now st"
  by (simp add: provideInlineCompletionItems_def)

lemma lookupAndServe_absent:
  "sessions st key = None \<Longrightarrow>
   lookupAndServe key document pos tok now st =
     (Returned None, createSession key document pos tok now st)"
  by (simp add: lookupAndServe_def)

lemma lookupAndServe_stale:
  "sessions st key = Some sid \<Longrightarrow> documentVersion (heap st sid) \<noteq> version document \<Longrightarrow>
   requestUuid (heap st sid) = key \<Longrightarrow>
   lookupAndServe key document pos tok now st =
     (Returned None, createSession key document pos tok now (clearSession key True st))"
  by (simp add: lookupAndServe_def)

lemma lookupAndServe_errored:
  "sessions st key = Some sid \<Longrightarrow> documentVersion (heap st sid) = version document \<Longrightarrow>
   requestUuid (heap st sid) = key \<Longrightarrow> truthy (session_error (heap st sid)) \<Longrightarrow>
   lookupAndServe key document pos tok now st = (Returned None, clearSession key True st)"
  by (simp add: lookupAndServe_def)

lemma lookupAndServe_live:
  "sessions st key = Some sid \<Longrightarrow> documentVersion (heap st sid) = version document \<Longrightarrow>
   \<not> truthy (session_error (heap st sid)) \<Longrightarrow>
   lookupAndServe key document pos tok now st =
     (Returned (if session_text (heap st sid) = [] then None
                else Some (completionList (heap st sid))), st)"
  by (simp add: lookupAndServe_def)

lemma runListener_handle:
  "disposeCalls (cancellation (heap st n)) = 0 \<or> cancelled st n \<Longrightarrow>
   disposeCalls (cancellation (heap (runListener l st) n)) = 0 \<or> cancelled (runListener l st) n"
  by (cases l) (auto simp: cancelled_def clearSession_heap split: option.splits)

lemma fold_runListener_handle:
  "disposeCalls (cancellation (heap st n)) = 0 \<or> cancelled st n \<Longrightarrow>
   disposeCalls (cancellation (heap (fold runListener ls st) n)) = 0
   \<or> cancelled (fold runListener ls st) n"
  by (induction ls arbitrary: st) (simp_all add: runListener_handle)

lemma runListener_cancelled: "cancelled st n \<Longrightarrow> cancelled (runListener l st) n"
  by (cases l) (auto simp: cancelled_def clearSession_heap split: option.splits)

lemma hostTokenFired_last:
  assumes l: "listeners st = ls @ [(tok, CancelSource n), (tok, ClearSessionKey key)]"
    and d: "disposeCalls (cancellation (heap st n)) = 0"
  shows "sessions (hostTokenFired tok st) key = None \<and> cancelled (hostTokenFired tok st) n"
proof -
  let ?st0 = "st\<lparr>listeners := filter (\<lambda>p. fst p \<noteq> tok) (listeners st)\<rparr>"
  let ?L = "map snd (filter (\<lambda>p. fst p = tok) ls)"
  let ?s1 = "fold runListener ?L ?st0"
  have h: "hostTokenFired tok st
      = runListener (ClearSessionKey key) (runListener (CancelSource n) ?s1)"
    by (simp add: hostTokenFired_def l)
  have "disposeCalls (cancellation (heap ?st0 n)) = 0 \<or> cancelled ?st0 n" using d by simp
  then have "disposeCalls (cancellation (heap ?s1 n)) = 0 \<or> cancelled ?s1 n"
    by (rule fold_runListener_handle)
  then have "cancelled (runListener (CancelSource n) ?s1) n"
    by (auto simp: cancelled_def)
  then have "cancelled (runListener (ClearSessionKey key) (runListener (CancelSource n) ?s1)) n"
    by (rule runListener_cancelled)
  then show ?thesis by (simp add: h)
qed

lemma cancelled_clearSession:
  "sessions st key = Some sid \<Longrightarrow> cancelled (clearSession key True st) sid"
  by (simp add: cancelled_def clearSession_Some)

lemma cancelled_createSession:
  "i \<noteq> nextSid st \<Longrightarrow> cancelled (createSession key document pos tok now st) i = cancelled st i"
  by (simp add: cancelled_def)

lemma throttle_diff_clearSession [simp]:
  "throttle_diff now (clearSession key c st) = throttle_diff now st"
  by (simp add: throttle_diff_def)

lemma grows_refl: "grows st st"
  by (simp add: grows_def)

lemma grows_trans:
  assumes ab: "grows a b" and bc: "grows b c"
  shows "grows a c"
proof -
  from ab bc have n: "nextSid a \<le> nextSid b" "nextSid b \<le> nextSid c"
    and e: "enabledLanguages c = enabledLanguages a"
    by (simp_all add: grows_def)
  have "prefix (session_text (heap a i)) (session_text (heap c i))
        \<and> documentVersion (heap c i) = documentVersion (heap a i)" if i: "i < nextSid a" for i
  proof -
    from i n have j: "i < nextSid b" by simp
    from ab i have 1: "prefix (session_text (heap a i)) (session_text (heap b i))"
      "documentVersion (heap b i) = documentVersion (heap a i)" by (simp_all add: grows_def)
    from bc j have 2: "prefix (session_text (heap b i)) (session_text (heap c i))"
      "documentVersion (heap c i) = documentVersion (heap b i)" by (simp_all add: grows_def)
    from 1 2 show ?thesis by (auto intro: prefix_order.trans)
  qed
  with n e show ?thesis by (simp add: grows_def)
qed

lemma grows_clearSession: "grows st (clearSession key c st)"
  by (cases "sessions st key") (simp_all add: grows_def clearSession_Some)

lemma grows_finally: "grows st (requestCompletion_finally sid st)"
  by (simp add: grows_def)

lemma grows_afterThrottle: "grows st (requestCompletion_afterThrottle sid t st)"
  by (simp add: requestCompletion_afterThrottle_def grows_finally) (simp add: grows_def)

lemma grows_throttle_end: "grows st (throttle_end now st)"
  by (simp add: grows_def)

lemma grows_throttleWake: "grows st (throttleWake sid now st)"
proof (cases "phase st sid")
  case (Throttling d)
  have "grows st (requestCompletion_afterThrottle sid now (throttle_end now st))"
    by (rule grows_trans [OF grows_throttle_end grows_afterThrottle])
  with Throttling show ?thesis by (simp add: throttleWake_def grows_refl)
qed (simp_all add: throttleWake_def grows_refl grows_afterThrottle)

lemma grows_deliverDelta: "text_inv st \<Longrightarrow> grows st (deliverDelta sid delta st)"
  by (auto simp: deliverDelta_def finishedCb_def Let_def grows_def text_inv_def)

lemma grows_upd:
  "prefix (session_text (heap st sid)) (session_text (f (heap st sid))) \<Longrightarrow>
   documentVersion (f (heap st sid)) = documentVersion (heap st sid) \<Longrightarrow>
   grows st (updSession sid f st)"
  by (simp add: grows_def)

lemma grows_scheduleDidChange: "grows st (scheduleDidChange st)"
  by (simp add: grows_def)

lemma grows_resolved: "grows st (requestCompletion_resolved sid response st)"
proof (cases "phase st sid = Fetching")
  case False
  then show ?thesis by (simp add: requestCompletion_resolved_def grows_refl)
next
  case True
  show ?thesis
  proof (cases response)
    case (Success v)
    show ?thesis
      using True Success
      by (auto simp: requestCompletion_resolved_def grows_def)
  next
    case Canceled
    with True show ?thesis by (simp add: requestCompletion_resolved_def grows_def)
  next
    case (Failed reason)
    with True show ?thesis by (simp add: requestCompletion_resolved_def grows_def)
  qed
qed

lemma grows_threw: "grows st (requestCompletion_threw sid message st)"
  by (simp add: requestCompletion_threw_def grows_def)

lemma grows_createSession: "grows st (createSession key document pos tok now st)"
  by (simp add: grows_def)

lemma grows_lookupAndServe: "grows st (snd (lookupAndServe key document pos tok now st))"
proof -
  have a: "grows st (createSession key document pos tok now (clearSession k True st))" for k
    by (rule grows_trans [OF grows_clearSession grows_createSession])
  show ?thesis
    by (auto simp: lookupAndServe_def a grows_clearSession grows_createSession grows_refl
        split: option.splits)
qed

lemma grows_provide: "grows st (snd (provideInlineCompletionItems document pos ctx tok now st))"
  by (simp add: provideInlineCompletionItems_def grows_lookupAndServe grows_refl
      split: option.splits bool.splits)

lemma grows_runListener: "grows st (runListener l st)"
  by (cases l) (simp_all add: grows_clearSession grows_refl, simp add: grows_def)

lemma grows_fold_runListener: "grows st (fold runListener ls st)"
proof (induction ls arbitrary: st)
  case Nil
  show ?case by (simp add: grows_refl)
next
  case (Cons l ls)
  show ?case using grows_trans [OF grows_runListener Cons] by simp
qed

lemma grows_hostTokenFired: "grows st (hostTokenFired tok st)"
proof -
  have "grows st (st\<lparr>listeners := filter (\<lambda>p. fst p \<noteq> tok) (listeners st)\<rparr>)"
    by (simp add: grows_def)
  then show ?thesis unfolding hostTokenFired_def by (rule grows_trans [OF _ grows_fold_runListener])
qed

lemma grows_step: "engine_inv st \<Longrightarrow> grows st (step e st)"
  by (cases e)
     (simp_all add: grows_provide handleEndOfLifetime_def handleListEndOfLifetime_def
        grows_clearSession grows_refl grows_hostTokenFired grows_throttleWake
        grows_deliverDelta grows_resolved grows_threw engine_inv_def split: list.splits)

lemma grows_run: "engine_inv st \<Longrightarrow> grows st (run es st)"
proof (induction es arbitrary: st)
  case Nil
  show ?case by (simp add: run_def grows_refl)
next
  case (Cons e es)
  have "grows (step e st) (run es (step e st))"
    by (rule Cons.IH) (rule engine_inv_step [OF Cons.prems])
  with grows_step [OF Cons.prems] have "grows st (run es (step e st))" by (rule grows_trans)
  then show ?case by (simp add: run_def)
qed

lemma shownText_live [simp]:
  "shownText (Returned (if session_text s = [] then None else Some (completionList s)))
     = session_text s"
  by (simp add: shownText_def completionList_def)

lemma error_inv_frame:
  assumes e: "error_inv st"
    and p: "\<And>i. phase st' i \<noteq> Exited \<Longrightarrow> phase st i \<noteq> Exited"
    and r: "\<And>i. session_error (heap st' i) = session_error (heap st i)"
    and d: "\<And>i. session_done (heap st' i) = session_done (heap st i)"
  shows "error_inv st'"
  unfolding error_inv_def
proof (intro allI conjI impI)
  fix i
  from e have a: "phase st i \<noteq> Exited \<Longrightarrow>
      session_error (heap st i) = None \<and> \<not> session_done (heap st i)"
    and b: "session_done (heap st i) \<Longrightarrow> session_error (heap st i) = None"
    unfolding error_inv_def by blast+
  { assume "phase st' i \<noteq> Exited"
    then have "phase st i \<noteq> Exited" by (rule p)
    with a show "session_error (heap st' i) = None" by (simp add: r)
    from \<open>phase st i \<noteq> Exited\<close> a show "\<not> session_done (heap st' i)" by (simp add: d) }
  { assume "session_done (heap st' i)"
    with b show "session_error (heap st' i) = None" by (simp add: r d) }
qed

lemma error_inv_clearSession: "error_inv st \<Longrightarrow> error_inv (clearSession key c st)"
  by (erule error_inv_frame; cases "sessions st key") (simp_all add: clearSession_Some)

lemma error_inv_finally: "error_inv st \<Longrightarrow> error_inv (requestCompletion_finally sid st)"
  by (erule error_inv_frame) (simp_all split: if_splits)

lemma error_inv_afterThrottle:
  "error_inv st \<Longrightarrow> phase st sid \<noteq> Exited \<Longrightarrow>
   error_inv (requestCompletion_afterThrottle sid t st)"
  by (erule error_inv_frame)
     (simp_all add: requestCompletion_afterThrottle_def split: if_splits)

lemma error_inv_throttle_end: "error_inv st \<Longrightarrow> error_inv (throttle_end now st)"
  by (erule error_inv_frame) simp_all

lemma error_inv_throttleWake: "error_inv st \<Longrightarrow> error_inv (throttleWake sid now st)"
  by (cases "phase st sid")
     (simp_all add: throttleWake_def error_inv_afterThrottle error_inv_throttle_end)

lemma deliverDelta_fields [simp]:
  "sessions (deliverDelta sid delta st) = sessions st"
  "nextSid (deliverDelta sid delta st) = nextSid st"
  "phase (deliverDelta sid delta st) = phase st"
  "lastRequestTimestamp (deliverDelta sid delta st) = lastRequestTimestamp st"
  "listeners (deliverDelta sid delta st) = listeners st"
  "dispatched (deliverDelta sid delta st) = dispatched st"
  "enabledLanguages (deliverDelta sid delta st) = enabledLanguages st"
  "session_error (heap (deliverDelta sid delta st) i) = session_error (heap st i)"
  "session_done (heap (deliverDelta sid delta st) i) = session_done (heap st i)"
  "cancellation (heap (deliverDelta sid delta st) i) = cancellation (heap st i)"
  "requestUuid (heap (deliverDelta sid delta st) i) = requestUuid (heap st i)"
  by (simp_all add: deliverDelta_def finishedCb_def Let_def)

lemma error_inv_deliverDelta: "error_inv st \<Longrightarrow> error_inv (deliverDelta sid delta st)"
  by (erule error_inv_frame) simp_all

lemma error_inv_exit:
  assumes e: "error_inv st"
    and f: "phase st' = (phase st)(sid := Exited)"
    and h: "\<And>j. j \<noteq> sid \<Longrightarrow> session_error (heap st' j) = session_error (heap st j)
                     \<and> session_done (heap st' j) = session_done (heap st j)"
    and s: "session_done (heap st' sid) \<longrightarrow> session_error (heap st' sid) = None"
  shows "error_inv st'"
  unfolding error_inv_def
proof (intro allI)
  fix i
  from e have a: "phase st i \<noteq> Exited \<Longrightarrow>
      session_error (heap st i) = None \<and> \<not> session_done (heap st i)"
    and b: "session_done (heap st i) \<Longrightarrow> session_error (heap st i) = None"
    unfolding error_inv_def by blast+
  show "(phase st' i \<noteq> Exited \<longrightarrow>
           session_error (heap st' i) = None \<and> \<not> session_done (heap st' i))
        \<and> (session_done (heap st' i) \<longrightarrow> session_error (heap st' i) = None)"
  proof (cases "i = sid")
    case True
    with f s show ?thesis by simp
  next
    case False
    with f h [OF False] a b show ?thesis by simp
  qed
qed

lemma error_inv_resolved:
  assumes e: "error_inv st"
  shows "error_inv (requestCompletion_resolved sid response st)"
proof (cases "phase st sid = Fetching")
  case False
  with e show ?thesis by (simp add: requestCompletion_resolved_def)
next
  case True
  from e True have n: "session_error (heap st sid) = None"
    unfolding error_inv_def by (metis phase.distinct(11))
  show ?thesis
  proof (cases response)
    case (Success v)
    show ?thesis
      by (rule error_inv_exit [OF e, where sid = sid])
         (simp_all add: requestCompletion_resolved_def True Success n)
  next
    case Canceled
    from e True have nd: "\<not> session_done (heap st sid)"
      unfolding error_inv_def by (metis phase.distinct(11))
    show ?thesis
      by (rule error_inv_exit [OF e, where sid = sid])
         (simp_all add: requestCompletion_resolved_def True Canceled nd)
  next
    case (Failed reason)
    from e True have nd: "\<not> session_done (heap st sid)"
      unfolding error_inv_def by (metis phase.distinct(11))
    show ?thesis
      by (rule error_inv_exit [OF e, where sid = sid])
         (simp_all add: requestCompletion_resolved_def True Failed nd)
  qed
qed

lemma error_inv_threw:
  assumes e: "error_inv st"
  shows "error_inv (requestCompletion_threw sid message st)"
proof (cases "phase st sid = Fetching")
  case False
  with e show ?thesis by (simp add: requestCompletion_threw_def)
next
  case True
  from e True have n: "session_error (heap st sid) = None" "\<not> session_done (heap st sid)"
    unfolding error_inv_def by (metis phase.distinct(11))+
  show ?thesis
    by (rule error_inv_exit [OF e, where sid = sid])
       (simp_all add: requestCompletion_threw_def True n)
qed

lemma error_inv_createSession:
  assumes e: "error_inv st"
  shows "error_inv (createSession key document pos tok now st)"
  unfolding error_inv_def
proof (intro allI)
  fix i
  from e have a: "phase st i \<noteq> Exited \<Longrightarrow>
      session_error (heap st i) = None \<and> \<not> session_done (heap st i)"
    and b: "session_done (heap st i) \<Longrightarrow> session_error (heap st i) = None"
    unfolding error_inv_def by blast+
  let ?st' = "createSession key document pos tok now st"
  show "(phase ?st' i \<noteq> Exited \<longrightarrow>
           session_error (heap ?st' i) = None \<and> \<not> session_done (heap ?st' i))
        \<and> (session_done (heap ?st' i) \<longrightarrow> session_error (heap ?st' i) = None)"
  proof (cases "i = nextSid st")
    case True
    then show ?thesis by simp
  next
    case False
    with a b show ?thesis by simp
  qed
qed

lemma error_inv_lookupAndServe:
  "error_inv st \<Longrightarrow> error_inv (snd (lookupAndServe key document pos tok now st))"
  by (simp add: lookupAndServe_def error_inv_createSession error_inv_clearSession
      split: option.splits)

lemma error_inv_provide:
  "error_inv st \<Longrightarrow> error_inv (snd (provideInlineCompletionItems document pos ctx tok now st))"
  by (simp add: provideInlineCompletionItems_def error_inv_lookupAndServe
      split: option.splits bool.splits)

lemma error_inv_runListener: "error_inv st \<Longrightarrow> error_inv (runListener l st)"
proof (cases l)
  case (CancelSource sid)
  assume e: "error_inv st"
  have "error_inv (updSession sid (cancellation_update cts_cancel) st)"
    by (rule error_inv_frame [OF e]) simp_all
  with e CancelSource show ?thesis by simp
next
  case (ClearSessionKey key)
  assume "error_inv st"
  with ClearSessionKey show ?thesis by (simp add: error_inv_clearSession)
qed

lemma error_inv_fold_runListener: "error_inv st \<Longrightarrow> error_inv (fold runListener ls st)"
  by (induction ls arbitrary: st) (simp_all add: error_inv_runListener)

lemma error_inv_hostTokenFired: "error_inv st \<Longrightarrow> error_inv (hostTokenFired tok st)"
proof -
  assume e: "error_inv st"
  have "error_inv (st\<lparr>listeners := filter (\<lambda>p. fst p \<noteq> tok) (listeners st)\<rparr>)"
    by (rule error_inv_frame [OF e]) simp_all
  then show ?thesis unfolding hostTokenFired_def by (rule error_inv_fold_runListener)
qed

lemma error_inv_step: "error_inv st \<Longrightarrow> error_inv (step e st)"
  by (cases e)
     (simp_all add: error_inv_provide handleEndOfLifetime_def handleListEndOfLifetime_def
        error_inv_clearSession error_inv_hostTokenFired error_inv_throttleWake
        error_inv_deliverDelta error_inv_resolved error_inv_threw split: list.splits)

lemma error_inv_run: "error_inv st \<Longrightarrow> error_inv (run es st)"
  unfolding run_def by (induction es arbitrary: st) (simp_all add: error_inv_step)

lemma error_inv_init: "error_inv (init cfg)"
  by (simp add: error_inv_def init_def blankSession_def)

lemma resolved_error:
  "phase st sid = Fetching \<Longrightarrow>
   session_error (heap (requestCompletion_resolved sid response st) sid)
     = (case response of Success v \<Rightarrow> session_error (heap st sid)
        | Canceled \<Rightarrow> Some ''cancelled'' | Failed reason \<Rightarrow> Some reason)"
  by (cases response) (simp_all add: requestCompletion_resolved_def)

lemma threw_error:
  "phase st sid = Fetching \<Longrightarrow>
   session_error (heap (requestCompletion_threw sid message st) sid)
     = (if cancelled st sid then session_error (heap st sid) else Some message)"
  by (simp add: requestCompletion_threw_def)

lemma throttleWake_error:
  "session_error (heap (throttleWake sid now st) i) = session_error (heap st i)"
  by (cases "phase st sid") (simp_all add: throttleWake_def requestCompletion_afterThrottle_def)

lemma engine_inv_reachable: "engine_inv (run es (init cfg))"
  by (rule engine_inv_run [OF engine_inv_init])

lemma registry_ok_reachable: "registry_ok (run es (init cfg))"
  using engine_inv_reachable [of es cfg] by (simp add: engine_inv_def)

text \<open>A driver that has to wait is due \<^verbatim>\<open>MIN_REQUEST_INTERVAL\<close> after the timestamp it
  read on entry.\<close>

lemma throttle_deadline:
  "now + throttle_diff now st = lastRequestTimestamp st + MIN_REQUEST_INTERVAL"
  by (simp add: throttle_diff_def)

text \<open>What the throttle does keep: a driver is suspended until
  \<^verbatim>\<open>MIN_REQUEST_INTERVAL\<close> after the timestamp it read on entry, and a waiting driver
  issues its request only when its timer is due.\<close>

lemma start_paces:
  "phase (requestCompletion_start sid now st) sid =
     (if now < lastRequestTimestamp st + MIN_REQUEST_INTERVAL
      then Throttling (lastRequestTimestamp st + MIN_REQUEST_INTERVAL) else Throttled now)"
  by (simp add: requestCompletion_start_def throttle_diff_def Let_def)

lemma wake_dispatch_due:
  "phase st sid = Throttling d \<Longrightarrow> dispatched (throttleWake sid now st) \<noteq> dispatched st \<Longrightarrow>
   d \<le> now \<and> \<not> cancelled st sid"
  by (simp add: throttleWake_def raceSettled_def requestCompletion_afterThrottle_def
      split: if_splits)

text \<open>The definitions a concrete trace is evaluated with.\<close>

lemmas trace_defs =
  run_def init_def doc_v1_def doc_v2_def cursor_def mid_word_def keyed_def shown_item_def
  started_def streaming_abc_def streaming_func_def failed_def succeeded_def
  cancelled_wait_def burst_def
  provideInlineCompletionItems_def isLanguageEnabled_def isAtMidWord_def isWordChar_def
  lookupAndServe_def requestKey_def createSession_def newSession_def completionList_def
  requestCompletion_start_def requestCompletion_afterThrottle_def requestCompletion_finally_def
  requestCompletion_resolved_def requestCompletion_threw_def throttleWake_def
  throttle_diff_def throttle_end_def raceSettled_def MIN_REQUEST_INTERVAL_def
  deliverDelta_def finishedCb_def clearSession_def hostTokenFired_def
  handleEndOfLifetime_def handleListEndOfLifetime_def
  updSession_def setPhase_def scheduleDidChange_def cancelled_def truthy_def
  cts_cancel_def cts_dispose_def shownText_def registered_def Let_def

section \<open>Monotonic text and idempotent polling\<close>

text \<open>
  C1, as stated, at a concrete trace. All four calls carry the key \<open>k\<close> and version 1 of
  the document. The session streams \<open>abc\<close> and a call shows it; the remote call then fails
  with \<open>rate_limited\<close>; the next call shows nothing (so not \<open>abc\<close> or an extension of it)
  and discards the session; the call after that registers a second session object under
  the same key. Likewise after an end-of-lifetime callback for the shown item: the next
  call registers a second session while the driver of the first is still streaming.
\<close>

theorem poll_after_error_counterexample:
  "fst (provideInlineCompletionItems doc_v1 cursor (keyed ''k'') 1 1100
          (run streaming_abc (init None)))
     = Returned (Some \<lparr>items = [shown_item], enableForwardStability = True\<rparr>)
   \<and> fst (provideInlineCompletionItems doc_v1 cursor (keyed ''k'') 1 1200
          (run (streaming_abc @ [Resolved 0 (Failed ''rate_limited'')]) (init None)))
     = Returned None
   \<and> \<not> prefix ''abc''
         (shownText (fst (provideInlineCompletionItems doc_v1 cursor (keyed ''k'') 1 1200
            (run (streaming_abc @ [Resolved 0 (Failed ''rate_limited'')]) (init None)))))
   \<and> sessions (run (streaming_abc @ [Resolved 0 (Failed ''rate_limited'')]) (init None)) ''k''
     = Some 0
   \<and> sessions (run (streaming_abc @ [Resolved 0 (Failed ''rate_limited''),
          Poll doc_v1 cursor (keyed ''k'') 1 1200]) (init None)) ''k'' = None
   \<and> sessions (run (streaming_abc @ [Resolved 0 (Failed ''rate_limited''),
          Poll doc_v1 cursor (keyed ''k'') 1 1200,
          Poll doc_v1 cursor (keyed ''k'') 2 1300]) (init None)) ''k'' = Some 1
   \<and> nextSid (run (streaming_abc @ [Resolved 0 (Failed ''rate_limited''),
          Poll doc_v1 cursor (keyed ''k'') 1 1200,
          Poll doc_v1 cursor (keyed ''k'') 2 1300]) (init None)) = 2
   \<and> sessions (run (streaming_abc @ [EndOfLifetime shown_item,
          Poll doc_v1 cursor (keyed ''k'') 1 1200]) (init None)) ''k'' = Some 1
   \<and> phase (run (streaming_abc @ [EndOfLifetime shown_item,
          Poll doc_v1 cursor (keyed ''k'') 1 1200]) (init None)) 0 = Fetching"
  by (simp add: trace_defs)

text \<open>
  C1, amended. In every state \<open>st\<close> the provider can reach, and every later state \<open>st2\<close>:
  the text of every session of \<open>st\<close> is a prefix of its text in \<open>st2\<close> (over the whole
  lifetime of the session, not only up to a terminal state). A call that passes the two
  guards and whose key maps to a registered session of the document's version with no error
  recorded leaves the state as it is (no session is created or removed) and shows the
  session's text, nothing when it is empty; if the same session is still registered
  without an error in \<open>st2\<close>, the call there shows the same text or an extension of it.
\<close>

theorem text_grows_and_live_poll_is_idempotent:
  assumes st: "st = run es (init cfg)" and st2: "st2 = run es' st"
  shows "(\<forall>j<nextSid st. prefix (session_text (heap st j)) (session_text (heap st2 j)))
       \<and> (isLanguageEnabled (enabledLanguages st) document
          \<and> isAtMidWord document pos = Some False
          \<and> sessions st (requestKey ctx document pos) = Some i
          \<and> documentVersion (heap st i) = version document
          \<and> \<not> truthy (session_error (heap st i))
          \<longrightarrow> provideInlineCompletionItems document pos ctx tok now st
                = (Returned (if session_text (heap st i) = [] then None
                             else Some (completionList (heap st i))), st)
              \<and> (sessions st2 (requestKey ctx document pos) = Some i
                 \<and> \<not> truthy (session_error (heap st2 i))
                 \<longrightarrow> provideInlineCompletionItems document pos ctx tok' now' st2
                       = (Returned (if session_text (heap st2 i) = [] then None
                                    else Some (completionList (heap st2 i))), st2)
                     \<and> prefix
                         (shownText (fst (provideInlineCompletionItems document pos ctx tok now st)))
                         (shownText (fst (provideInlineCompletionItems document pos ctx tok' now' st2)))))"
proof -
  have inv: "engine_inv st" unfolding st by (rule engine_inv_run [OF engine_inv_init])
  have g: "grows st st2" unfolding st2 by (rule grows_run [OF inv])
  have A: "\<forall>j<nextSid st. prefix (session_text (heap st j)) (session_text (heap st2 j))"
    using g by (simp add: grows_def)
  have B: "provideInlineCompletionItems document pos ctx tok now st
                = (Returned (if session_text (heap st i) = [] then None
                             else Some (completionList (heap st i))), st)
              \<and> (sessions st2 (requestKey ctx document pos) = Some i
                 \<and> \<not> truthy (session_error (heap st2 i))
                 \<longrightarrow> provideInlineCompletionItems document pos ctx tok' now' st2
                       = (Returned (if session_text (heap st2 i) = [] then None
                                    else Some (completionList (heap st2 i))), st2)
                     \<and> prefix
                         (shownText (fst (provideInlineCompletionItems document pos ctx tok now st)))
                         (shownText (fst (provideInlineCompletionItems document pos ctx tok' now' st2))))"
    if en: "isLanguageEnabled (enabledLanguages st) document"
      and mw: "isAtMidWord document pos = Some False"
      and reg: "sessions st (requestKey ctx document pos) = Some i"
      and ver: "documentVersion (heap st i) = version document"
      and ne: "\<not> truthy (session_error (heap st i))"
  proof -
    from inv reg have lt: "i < nextSid st" by (simp add: engine_inv_def registry_ok_def)
    have p1: "provideInlineCompletionItems document pos ctx tok now st
                = (Returned (if session_text (heap st i) = [] then None
                             else Some (completionList (heap st i))), st)"
      by (simp add: provide_passed [OF en mw] lookupAndServe_live [OF reg ver ne])
    have p2: "provideInlineCompletionItems document pos ctx tok' now' st2
                       = (Returned (if session_text (heap st2 i) = [] then None
                                    else Some (completionList (heap st2 i))), st2)
              \<and> prefix
                         (shownText (fst (provideInlineCompletionItems document pos ctx tok now st)))
                         (shownText (fst (provideInlineCompletionItems document pos ctx tok' now' st2)))"
      if reg2: "sessions st2 (requestKey ctx document pos) = Some i"
        and ne2: "\<not> truthy (session_error (heap st2 i))"
    proof -
      from g have en2: "isLanguageEnabled (enabledLanguages st2) document"
        using en by (simp add: grows_def)
      from g lt ver have ver2: "documentVersion (heap st2 i) = version document"
        by (simp add: grows_def)
      have q: "provideInlineCompletionItems document pos ctx tok' now' st2
                       = (Returned (if session_text (heap st2 i) = [] then None
                                    else Some (completionList (heap st2 i))), st2)"
        by (simp add: provide_passed [OF en2 mw] lookupAndServe_live [OF reg2 ver2 ne2])
      from A lt have "prefix (session_text (heap st i)) (session_text (heap st2 i))" by simp
      then show ?thesis by (simp add: p1 q)
    qed
    from p1 p2 show ?thesis by blast
  qed
  from A B show ?thesis by blast
qed

theorem text_grows_and_live_poll_is_idempotent_witness:
  "run (streaming_func @ [Delta 0 ''tion'']) (init None)
     = run [Delta 0 ''tion''] (run streaming_func (init None))
   \<and> 0 < nextSid (run streaming_func (init None))
   \<and> isLanguageEnabled (enabledLanguages (run streaming_func (init None))) doc_v1
   \<and> isAtMidWord doc_v1 cursor = Some False
   \<and> sessions (run streaming_func (init None)) (requestKey (keyed ''k'') doc_v1 cursor) = Some 0
   \<and> documentVersion (heap (run streaming_func (init None)) 0) = version doc_v1
   \<and> \<not> truthy (session_error (heap (run streaming_func (init None)) 0))
   \<and> sessions (run (streaming_func @ [Delta 0 ''tion'']) (init None))
        (requestKey (keyed ''k'') doc_v1 cursor) = Some 0
   \<and> \<not> truthy (session_error (heap (run (streaming_func @ [Delta 0 ''tion'']) (init None)) 0))
   \<and> prefix (session_text (heap (run streaming_func (init None)) 0))
        (session_text (heap (run (streaming_func @ [Delta 0 ''tion'']) (init None)) 0))
   \<and> snd (provideInlineCompletionItems doc_v1 cursor (keyed ''k'') 1 1100
             (run streaming_func (init None)))
       = run streaming_func (init None)
   \<and> shownText (fst (provideInlineCompletionItems doc_v1 cursor (keyed ''k'') 1 1100
             (run streaming_func (init None)))) = ''func''
   \<and> shownText (fst (provideInlineCompletionItems doc_v1 cursor (keyed ''k'') 2 1200
             (run (streaming_func @ [Delta 0 ''tion'']) (init None)))) = ''function''
   \<and> prefix
        (shownText (fst (provideInlineCompletionItems doc_v1 cursor (keyed ''k'') 1 1100
             (run streaming_func (init None)))))
        (shownText (fst (provideInlineCompletionItems doc_v1 cursor (keyed ''k'') 2 1200
             (run (streaming_func @ [Delta 0 ''tion'']) (init None)))))"
proof -
  let ?st = "run streaming_func (init None)"
  let ?st2 = "run (streaming_func @ [Delta 0 ''tion'']) (init None)"
  have e: "?st2 = run [Delta 0 ''tion''] ?st" by (simp add: run_def)
  have n: "0 < nextSid ?st" by (simp add: trace_defs)
  have h1: "isLanguageEnabled (enabledLanguages ?st) doc_v1" by (simp add: trace_defs)
  have h2: "isAtMidWord doc_v1 cursor = Some False" by (simp add: trace_defs)
  have h3: "sessions ?st (requestKey (keyed ''k'') doc_v1 cursor) = Some 0"
    by (simp add: trace_defs)
  have h4: "documentVersion (heap ?st 0) = version doc_v1" by (simp add: trace_defs)
  have h5: "\<not> truthy (session_error (heap ?st 0))" by (simp add: trace_defs)
  have h6: "sessions ?st2 (requestKey (keyed ''k'') doc_v1 cursor) = Some 0"
    by (simp add: trace_defs)
  have h7: "\<not> truthy (session_error (heap ?st2 0))" by (simp add: trace_defs)
  have t1: "session_text (heap ?st 0) = ''func''" by (simp add: trace_defs)
  have t2: "session_text (heap ?st2 0) = ''function''" by (simp add: trace_defs)
  note inst = text_grows_and_live_poll_is_idempotent [OF refl e,
      of doc_v1 cursor "keyed ''k''" 0 1 1100 2 1200]
  from inst n have a: "prefix (session_text (heap ?st 0)) (session_text (heap ?st2 0))"
    by blast
  from inst h1 h2 h3 h4 h5 have b:
    "provideInlineCompletionItems doc_v1 cursor (keyed ''k'') 1 1100 ?st
       = (Returned (if session_text (heap ?st 0) = [] then None
                    else Some (completionList (heap ?st 0))), ?st)"
    by blast
  from inst h1 h2 h3 h4 h5 h6 h7 have c:
    "provideInlineCompletionItems doc_v1 cursor (keyed ''k'') 2 1200 ?st2
       = (Returned (if session_text (heap ?st2 0) = [] then None
                    else Some (completionList (heap ?st2 0))), ?st2)
     \<and> prefix
        (shownText (fst (provideInlineCompletionItems doc_v1 cursor (keyed ''k'') 1 1100 ?st)))
        (shownText (fst (provideInlineCompletionItems doc_v1 cursor (keyed ''k'') 2 1200 ?st2)))"
    by blast
  have "shownText (fst (provideInlineCompletionItems doc_v1 cursor (keyed ''k'') 1 1100 ?st))
      = session_text (heap ?st 0)"
    by (simp only: b fst_conv shownText_live)
  then have s1: "shownText (fst (provideInlineCompletionItems doc_v1 cursor (keyed ''k'') 1 1100 ?st))
      = ''func''"
    by (simp only: t1)
  from c have "shownText (fst (provideInlineCompletionItems doc_v1 cursor (keyed ''k'') 2 1200 ?st2))
      = session_text (heap ?st2 0)"
    by (simp only: fst_conv shownText_live)
  then have s2: "shownText (fst (provideInlineCompletionItems doc_v1 cursor (keyed ''k'') 2 1200 ?st2))
      = ''function''"
    by (simp only: t2)
  have s3: "snd (provideInlineCompletionItems doc_v1 cursor (keyed ''k'') 1 1100 ?st) = ?st"
    by (simp only: b snd_conv)
  show ?thesis
    using e n h1 h2 h3 h4 h5 h6 h7 a s1 s2 s3 c by blast
qed

section \<open>Disposal of the cancellation handle\<close>




section \<open>The request throttle\<close>

text \<open>
  C3, as stated, at a concrete trace: the second trigger waits (its timer is due at 1075),
  the host cancels its token, and the wait ends at 1020. The timestamp, 1000 before, is 1020
  afterwards: the cancelled call has updated it. No request is issued for that session.
\<close>

theorem cancelled_wait_stamps_counterexample:
  "lastRequestTimestamp (run cancelled_wait (init None)) = 1000
   \<and> phase (run cancelled_wait (init None)) 1 = Throttling 1075
   \<and> cancelled (run cancelled_wait (init None)) 1
   \<and> lastRequestTimestamp (run (cancelled_wait @ [ThrottleWake 1 1020]) (init None)) = 1020
   \<and> phase (run (cancelled_wait @ [ThrottleWake 1 1020]) (init None)) 1 = Exited
   \<and> dispatched (run (cancelled_wait @ [ThrottleWake 1 1020]) (init None)) = [(0, 1000)]"
  by (simp add: trace_defs)

text \<open>
  C3, amended. A driver waiting in the throttle stays as it is until its timer is due or its
  token has fired. When it resumes, at time \<open>now\<close>, the timestamp is set to \<open>now\<close> in either
  case; a fired token only makes the driver leave right after, without issuing a request,
  while otherwise the request is issued.
\<close>

theorem throttle_exit_always_stamps:
  "phase st sid = Throttling d \<Longrightarrow>
     (if d \<le> now \<or> cancelled st sid
      then lastRequestTimestamp (throttleWake sid now st) = now
         \<and> (cancelled st sid \<longrightarrow>
               phase (throttleWake sid now st) sid = Exited
             \<and> dispatched (throttleWake sid now st) = dispatched st)
         \<and> (\<not> cancelled st sid \<longrightarrow>
               phase (throttleWake sid now st) sid = Fetching
             \<and> dispatched (throttleWake sid now st) = dispatched st @ [(sid, now)])
      else throttleWake sid now st = st)"
  by (simp add: throttleWake_def raceSettled_def requestCompletion_afterThrottle_def)

theorem throttle_exit_always_stamps_witness:
  "phase (run cancelled_wait (init None)) 1 = Throttling 1075
   \<and> cancelled (run cancelled_wait (init None)) 1
   \<and> lastRequestTimestamp (run cancelled_wait (init None)) = 1000
   \<and> lastRequestTimestamp (throttleWake 1 1030 (run cancelled_wait (init None))) = 1030
   \<and> phase (throttleWake 1 1030 (run cancelled_wait (init None))) 1 = Exited
   \<and> dispatched (throttleWake 1 1030 (run cancelled_wait (init None)))
       = dispatched (run cancelled_wait (init None))"
proof -
  have p: "phase (run cancelled_wait (init None)) 1 = Throttling 1075"
    by (simp add: trace_defs)
  have c: "cancelled (run cancelled_wait (init None)) 1" by (simp add: trace_defs)
  have l: "lastRequestTimestamp (run cancelled_wait (init None)) = 1000"
    by (simp add: trace_defs)
  from throttle_exit_always_stamps [OF p, of 1030] c p l show ?thesis by simp
qed

text \<open>
  C9, at a concrete trace. After a dispatch at 1000, two triggers with different keys
  arrive at 1010 and 1020. Each reads the timestamp 1000 on entry and waits until 1075;
  neither is cancelled; both wake at 1075 and both drivers go on to issue their request.
  The last two dispatches are 0 ms apart, not 75.
\<close>

theorem overlapping_waits_dispatch_together:
  "dispatched (run burst (init None)) = [(0, 1000), (1, 1075), (2, 1075)]
   \<and> \<not> cancelled (run burst (init None)) 1
   \<and> \<not> cancelled (run burst (init None)) 2
   \<and> phase (run burst (init None)) 1 = Fetching
   \<and> phase (run burst (init None)) 2 = Fetching"
  by (simp add: trace_defs)

section \<open>The host's end-of-lifetime callbacks\<close>

text \<open>
  C4, as stated, at a concrete trace: a session is streaming, its handle has not fired;
  after either callback with its correlation id the session has left the registry and the
  handle still has not fired.
\<close>

theorem expiry_does_not_cancel_counterexample:
  "sessions (run streaming_abc (init None)) ''k'' = Some 0
   \<and> \<not> cancelled (run streaming_abc (init None)) 0
   \<and> sessions (handleEndOfLifetime shown_item (run streaming_abc (init None))) ''k'' = None
   \<and> \<not> cancelled (handleEndOfLifetime shown_item (run streaming_abc (init None))) 0
   \<and> sessions (handleListEndOfLifetime
         \<lparr>items = [shown_item], enableForwardStability = True\<rparr>
         (run streaming_abc (init None))) ''k'' = None
   \<and> \<not> cancelled (handleListEndOfLifetime
         \<lparr>items = [shown_item], enableForwardStability = True\<rparr>
         (run streaming_abc (init None))) 0"
  by (simp add: trace_defs)

text \<open>
  C4, amended. An end-of-lifetime callback carrying the non-empty correlation id of a
  registered session removes that session from the registry and disposes its handle, and
  does not cancel it: whether the handle has fired is as before, and the driver stays
  where it is. The callback for a list does the same with the id of the list's first item.
\<close>

theorem end_of_lifetime_discards_without_cancel:
  "c \<noteq> [] \<Longrightarrow> sessions st c = Some sid \<Longrightarrow>
     sessions (handleEndOfLifetime \<lparr>insertText = t, item_range = r, correlationId = Some c\<rparr> st)
       = (sessions st)(c := None)
   \<and> cancelled (handleEndOfLifetime \<lparr>insertText = t, item_range = r, correlationId = Some c\<rparr> st) sid
       = cancelled st sid
   \<and> disposeCalls (cancellation (heap
        (handleEndOfLifetime \<lparr>insertText = t, item_range = r, correlationId = Some c\<rparr> st) sid))
       = Suc (disposeCalls (cancellation (heap st sid)))
   \<and> phase (handleEndOfLifetime \<lparr>insertText = t, item_range = r, correlationId = Some c\<rparr> st)
       = phase st
   \<and> handleListEndOfLifetime
        \<lparr>items = \<lparr>insertText = t, item_range = r, correlationId = Some c\<rparr> # rest,
         enableForwardStability = f\<rparr> st
       = handleEndOfLifetime \<lparr>insertText = t, item_range = r, correlationId = Some c\<rparr> st"
  by (simp add: handleEndOfLifetime_def handleListEndOfLifetime_def truthy_def cancelled_def
      clearSession_Some)

theorem end_of_lifetime_discards_without_cancel_witness:
  "''k'' \<noteq> []
   \<and> sessions (run streaming_abc (init None)) ''k'' = Some 0
   \<and> phase (run streaming_abc (init None)) 0 = Fetching
   \<and> sessions (handleEndOfLifetime
        \<lparr>insertText = ''abc'', item_range = \<lparr>range_start = cursor, range_end = cursor\<rparr>,
         correlationId = Some ''k''\<rparr> (run streaming_abc (init None))) ''k'' = None
   \<and> \<not> cancelled (handleEndOfLifetime
        \<lparr>insertText = ''abc'', item_range = \<lparr>range_start = cursor, range_end = cursor\<rparr>,
         correlationId = Some ''k''\<rparr> (run streaming_abc (init None))) 0
   \<and> phase (handleEndOfLifetime
        \<lparr>insertText = ''abc'', item_range = \<lparr>range_start = cursor, range_end = cursor\<rparr>,
         correlationId = Some ''k''\<rparr> (run streaming_abc (init None))) 0 = Fetching"
proof -
  have k: "''k'' \<noteq> []" by simp
  have r: "sessions (run streaming_abc (init None)) ''k'' = Some 0" by (simp add: trace_defs)
  have p: "phase (run streaming_abc (init None)) 0 = Fetching" by (simp add: trace_defs)
  have c: "\<not> cancelled (run streaming_abc (init None)) 0" by (simp add: trace_defs)
  from end_of_lifetime_discards_without_cancel [OF k r,
      of "''abc''" "\<lparr>range_start = cursor, range_end = cursor\<rparr>"] r p c
  show ?thesis by simp
qed

section \<open>When the error detail is set\<close>

text \<open>
  C5, as stated, at a concrete trace: the host cancels the token of a streaming session
  (the session's handle fires, the session is cleared), and the remote call resolves as
  cancelled. The driver records the error \<open>cancelled\<close>.
\<close>

theorem cancelled_sets_error_counterexample:
  "cancelled (run (started @ [HostTokenFired 0]) (init None)) 0
   \<and> session_error (heap (run (started @ [HostTokenFired 0]) (init None)) 0) = None
   \<and> session_error (heap (run (started @ [HostTokenFired 0, Resolved 0 Canceled]) (init None)) 0)
       = Some ''cancelled''
   \<and> session_error (heap (run (started @ [Resolved 0 Canceled]) (init None)) 0)
       = Some ''cancelled''"
  by (simp add: trace_defs)

text \<open>
  C5, amended. In every state the provider can reach, a session with an error recorded has
  a driver that has exited, and is not done. The error is recorded by the driver's last
  step: the reason when the remote call resolves with a failure, the word \<open>cancelled\<close> when
  it resolves as cancelled, the message of an exception unless the session's handle has
  fired. It stays as it was when the remote call succeeds, when an exception arrives after
  the handle has fired, and when the driver leaves at the throttle.
\<close>

theorem error_detail_by_resolution:
  "(session_error (heap (run es (init cfg)) i) \<noteq> None \<longrightarrow>
       phase (run es (init cfg)) i = Exited \<and> \<not> session_done (heap (run es (init cfg)) i))
   \<and> (phase st sid = Fetching \<longrightarrow>
        session_error (heap (requestCompletion_resolved sid Canceled st) sid) = Some ''cancelled''
      \<and> session_error (heap (requestCompletion_resolved sid (Failed reason) st) sid) = Some reason
      \<and> session_error (heap (requestCompletion_resolved sid (Success v) st) sid)
          = session_error (heap st sid)
      \<and> session_error (heap (requestCompletion_threw sid message st) sid)
          = (if cancelled st sid then session_error (heap st sid) else Some message))
   \<and> session_error (heap (throttleWake sid now st) sid) = session_error (heap st sid)"
proof -
  have "error_inv (run es (init cfg))" by (rule error_inv_run [OF error_inv_init])
  from this [unfolded error_inv_def, THEN spec, of i]
  have A: "session_error (heap (run es (init cfg)) i) \<noteq> None \<longrightarrow>
       phase (run es (init cfg)) i = Exited \<and> \<not> session_done (heap (run es (init cfg)) i)"
    by auto
  show ?thesis
    using A by (simp add: resolved_error threw_error throttleWake_error)
qed

theorem error_detail_by_resolution_witness:
  "session_error (heap (run failed (init None)) 0) \<noteq> None
   \<and> phase (run failed (init None)) 0 = Exited
   \<and> \<not> session_done (heap (run failed (init None)) 0)
   \<and> phase (run started (init None)) 0 = Fetching
   \<and> \<not> cancelled (run started (init None)) 0
   \<and> session_error (heap (requestCompletion_resolved 0 Canceled (run started (init None))) 0)
       = Some ''cancelled''
   \<and> session_error (heap (requestCompletion_resolved 0 (Failed ''rate_limited'')
        (run started (init None))) 0) = Some ''rate_limited''
   \<and> session_error (heap (requestCompletion_threw 0 ''socket hang up''
        (run started (init None))) 0) = Some ''socket hang up''"
proof -
  have e: "session_error (heap (run failed (init None)) 0) \<noteq> None" by (simp add: trace_defs)
  have p: "phase (run started (init None)) 0 = Fetching" by (simp add: trace_defs)
  have c: "\<not> cancelled (run started (init None)) 0" by (simp add: trace_defs)
  from error_detail_by_resolution [of failed None 0 "run started (init None)" 0
      "''rate_limited''" "[]" "''socket hang up''" 0] e p c
  show ?thesis by simp
qed

section \<open>The polling surface\<close>

text \<open>
  C6, as stated, at a concrete call: the key \<open>k\<close> maps to a registered session of version
  1, the document is at version 2, and the cursor is inside a word. The mid-word guard
  returns before the lookup: the old session stays registered, its handle has not fired,
  and no session is created.
\<close>

theorem suppressed_trigger_keeps_stale_counterexample:
  "sessions (run streaming_abc (init None)) (requestKey (keyed ''k'') doc_v2 mid_word) = Some 0
   \<and> documentVersion (heap (run streaming_abc (init None)) 0) \<noteq> version doc_v2
   \<and> isAtMidWord doc_v2 mid_word = Some True
   \<and> fst (provideInlineCompletionItems doc_v2 mid_word (keyed ''k'') 1 1100
            (run streaming_abc (init None))) = Returned None
   \<and> sessions (snd (provideInlineCompletionItems doc_v2 mid_word (keyed ''k'') 1 1100
            (run streaming_abc (init None)))) ''k'' = Some 0
   \<and> \<not> cancelled (snd (provideInlineCompletionItems doc_v2 mid_word (keyed ''k'') 1 1100
            (run streaming_abc (init None)))) 0
   \<and> nextSid (snd (provideInlineCompletionItems doc_v2 mid_word (keyed ''k'') 1 1100
            (run streaming_abc (init None)))) = 1"
  by (simp add: trace_defs)

text \<open>
  C6, amended. In every state the provider can reach: a call that is not suppressed by the
  two guards and whose key maps to a registered session of another document version does
  exactly what it does on the state in which \<^verbatim>\<open>_clearSession(key, true)\<close> has already run,
  and in that state the key is unregistered and the old session's handle has fired and has
  been disposed: the old session is cancelled and discarded before the new one is created.
  The call then returns nothing and leaves a fresh session for the new version under the
  key, its driver suspended in the throttle, no request issued yet.
\<close>

theorem stale_session_is_replaced:
  assumes st: "st = run es (init cfg)"
    and en: "isLanguageEnabled (enabledLanguages st) document"
    and mw: "isAtMidWord document pos = Some False"
    and reg: "sessions st (requestKey ctx document pos) = Some sid"
    and stale: "documentVersion (heap st sid) \<noteq> version document"
  shows "provideInlineCompletionItems document pos ctx tok now st
           = provideInlineCompletionItems document pos ctx tok now
               (clearSession (requestKey ctx document pos) True st)
       \<and> sessions (clearSession (requestKey ctx document pos) True st)
            = (sessions st)(requestKey ctx document pos := None)
       \<and> cancelled (clearSession (requestKey ctx document pos) True st) sid
       \<and> disposeCalls (cancellation (heap (clearSession (requestKey ctx document pos) True st) sid))
            = Suc (disposeCalls (cancellation (heap st sid)))
       \<and> (case provideInlineCompletionItems document pos ctx tok now st of (r, st') \<Rightarrow>
            r = Returned None
          \<and> nextSid st \<noteq> sid
          \<and> sessions st' = (sessions st)(requestKey ctx document pos \<mapsto> nextSid st)
          \<and> heap st' (nextSid st) = newSession (requestKey ctx document pos) document pos
          \<and> cancelled st' sid
          \<and> phase st' (nextSid st) =
               (if throttle_diff now st > 0 then Throttling (now + throttle_diff now st)
                else Throttled now)
          \<and> dispatched st' = dispatched st)"
proof -
  let ?key = "requestKey ctx document pos"
  let ?c = "clearSession ?key True st"
  have ok: "registry_ok st" unfolding st by (rule registry_ok_reachable)
  from ok reg have lt: "sid < nextSid st" and u: "requestUuid (heap st sid) = ?key"
    by (auto simp: registry_ok_def)
  have gone: "sessions ?c ?key = None" by simp
  have en': "isLanguageEnabled (enabledLanguages ?c) document" using en by simp
  have p: "provideInlineCompletionItems document pos ctx tok now st
      = (Returned None, createSession ?key document pos tok now ?c)"
    by (simp add: provide_passed [OF en mw] lookupAndServe_stale [OF reg stale u])
  have q: "provideInlineCompletionItems document pos ctx tok now ?c
      = (Returned None, createSession ?key document pos tok now ?c)"
    by (simp add: provide_passed [OF en' mw] lookupAndServe_absent [OF gone])
  have c: "cancelled ?c sid" by (rule cancelled_clearSession [OF reg])
  have c': "cancelled (createSession ?key document pos tok now ?c) sid"
    using lt c by (simp add: cancelled_createSession)
  have d: "disposeCalls (cancellation (heap ?c sid)) = Suc (disposeCalls (cancellation (heap st sid)))"
    by (simp add: clearSession_Some [OF reg])
  show ?thesis using lt c c' d by (simp add: p q)
qed

theorem stale_session_is_replaced_witness:
  "isLanguageEnabled (enabledLanguages (run streaming_abc (init None))) doc_v2
   \<and> isAtMidWord doc_v2 cursor = Some False
   \<and> sessions (run streaming_abc (init None)) (requestKey (keyed ''k'') doc_v2 cursor) = Some 0
   \<and> documentVersion (heap (run streaming_abc (init None)) 0) \<noteq> version doc_v2
   \<and> \<not> cancelled (run streaming_abc (init None)) 0
   \<and> fst (provideInlineCompletionItems doc_v2 cursor (keyed ''k'') 1 1100
            (run streaming_abc (init None))) = Returned None
   \<and> sessions (snd (provideInlineCompletionItems doc_v2 cursor (keyed ''k'') 1 1100
            (run streaming_abc (init None)))) ''k'' = Some 1
   \<and> cancelled (snd (provideInlineCompletionItems doc_v2 cursor (keyed ''k'') 1 1100
            (run streaming_abc (init None)))) 0
   \<and> documentVersion (heap (snd (provideInlineCompletionItems doc_v2 cursor (keyed ''k'') 1 1100
            (run streaming_abc (init None)))) 1) = 2"
proof -
  let ?st = "run streaming_abc (init None)"
  have h1: "isLanguageEnabled (enabledLanguages ?st) doc_v2" by (simp add: trace_defs)
  have h2: "isAtMidWord doc_v2 cursor = Some False" by (simp add: trace_defs)
  have h4: "sessions ?st (requestKey (keyed ''k'') doc_v2 cursor) = Some 0"
    by (simp add: trace_defs)
  have h5: "documentVersion (heap ?st 0) \<noteq> version doc_v2" by (simp add: trace_defs)
  have c: "\<not> cancelled ?st 0" by (simp add: trace_defs)
  have n: "nextSid ?st = 1" by (simp add: trace_defs)
  have k: "requestKey (keyed ''k'') doc_v2 cursor = ''k''" by (simp add: requestKey_def keyed_def)
  have v: "version doc_v2 = 2" by (simp add: doc_v2_def)
  from stale_session_is_replaced [OF refl h1 h2 h4 h5, where tok = 1 and now = 1100]
  have "fst (provideInlineCompletionItems doc_v2 cursor (keyed ''k'') 1 1100 ?st) = Returned None
   \<and> sessions (snd (provideInlineCompletionItems doc_v2 cursor (keyed ''k'') 1 1100 ?st)) ''k''
       = Some 1
   \<and> cancelled (snd (provideInlineCompletionItems doc_v2 cursor (keyed ''k'') 1 1100 ?st)) 0
   \<and> documentVersion (heap (snd (provideInlineCompletionItems doc_v2 cursor (keyed ''k'') 1 1100
          ?st)) 1) = 2"
    by (simp add: n k v split: prod.splits)
  with h1 h2 h4 h5 c show ?thesis by blast
qed

text \<open>
  C7. A call that is not suppressed by the two guards (the language is enabled, the
  position lies in the document and not inside a word) and whose key has no registered
  session. It returns nothing at once. It leaves a new session object registered under the key: empty
  text, not done, no error, a handle that has neither fired nor been disposed. The driver
  has been started and is suspended in the throttle; no request has been issued. The
  host's token carries the two new listeners, and when that token fires the session is
  unregistered and its handle has fired.
\<close>

theorem new_session_is_pending:
  assumes en: "isLanguageEnabled (enabledLanguages st) document"
    and mw: "isAtMidWord document pos = Some False"
    and ab: "sessions st (requestKey ctx document pos) = None"
  shows "case provideInlineCompletionItems document pos ctx tok now st of (r, st') \<Rightarrow>
           r = Returned None
         \<and> sessions st' = (sessions st)(requestKey ctx document pos \<mapsto> nextSid st)
         \<and> nextSid st' = Suc (nextSid st)
         \<and> heap st' = (heap st)(nextSid st := newSession (requestKey ctx document pos) document pos)
         \<and> session_text (heap st' (nextSid st)) = []
         \<and> \<not> session_done (heap st' (nextSid st))
         \<and> session_error (heap st' (nextSid st)) = None
         \<and> documentVersion (heap st' (nextSid st)) = version document
         \<and> cancellation (heap st' (nextSid st)) = \<lparr>isCancellationRequested = False, disposeCalls = 0\<rparr>
         \<and> phase st' (nextSid st) =
              (if throttle_diff now st > 0 then Throttling (now + throttle_diff now st)
               else Throttled now)
         \<and> dispatched st' = dispatched st
         \<and> listeners st' = listeners st @ [(tok, CancelSource (nextSid st)),
                                           (tok, ClearSessionKey (requestKey ctx document pos))]
         \<and> sessions (hostTokenFired tok st') (requestKey ctx document pos) = None
         \<and> cancelled (hostTokenFired tok st') (nextSid st)"
proof -
  let ?key = "requestKey ctx document pos"
  let ?st' = "createSession ?key document pos tok now st"
  have p: "provideInlineCompletionItems document pos ctx tok now st = (Returned None, ?st')"
    by (simp add: provide_passed [OF en mw] lookupAndServe_absent [OF ab])
  have f: "sessions (hostTokenFired tok ?st') ?key = None \<and> cancelled (hostTokenFired tok ?st') (nextSid st)"
    by (rule hostTokenFired_last [where ls = "listeners st"]) simp_all
  show ?thesis using f by (simp add: p)
qed

theorem new_session_is_pending_witness:
  "isLanguageEnabled (enabledLanguages (init None)) doc_v1
   \<and> isAtMidWord doc_v1 cursor = Some False
   \<and> sessions (init None) (requestKey (keyed ''k'') doc_v1 cursor) = None
   \<and> fst (provideInlineCompletionItems doc_v1 cursor (keyed ''k'') 0 1000 (init None))
       = Returned None
   \<and> sessions (snd (provideInlineCompletionItems doc_v1 cursor (keyed ''k'') 0 1000 (init None)))
        ''k'' = Some 0
   \<and> session_text (heap (snd (provideInlineCompletionItems doc_v1 cursor (keyed ''k'') 0 1000
        (init None))) 0) = []
   \<and> phase (snd (provideInlineCompletionItems doc_v1 cursor (keyed ''k'') 0 1000 (init None))) 0
       = Throttled 1000
   \<and> dispatched (snd (provideInlineCompletionItems doc_v1 cursor (keyed ''k'') 0 1000
        (init None))) = []
   \<and> sessions (hostTokenFired 0
        (snd (provideInlineCompletionItems doc_v1 cursor (keyed ''k'') 0 1000 (init None))))
        ''k'' = None
   \<and> cancelled (hostTokenFired 0
        (snd (provideInlineCompletionItems doc_v1 cursor (keyed ''k'') 0 1000 (init None)))) 0"
proof -
  have h1: "isLanguageEnabled (enabledLanguages (init None)) doc_v1" by (simp add: trace_defs)
  have h2: "isAtMidWord doc_v1 cursor = Some False" by (simp add: trace_defs)
  have h3: "sessions (init None) (requestKey (keyed ''k'') doc_v1 cursor) = None"
    by (simp add: init_def)
  have n: "nextSid (init None) = 0" "dispatched (init None) = []" by (simp_all add: init_def)
  have k: "requestKey (keyed ''k'') doc_v1 cursor = ''k''" by (simp add: requestKey_def keyed_def)
  have d: "\<not> throttle_diff 1000 (init None) > 0"
    by (simp add: throttle_diff_def MIN_REQUEST_INTERVAL_def init_def)
  from new_session_is_pending [OF h1 h2 h3, where tok = 0 and now = 1000]
  have "fst (provideInlineCompletionItems doc_v1 cursor (keyed ''k'') 0 1000 (init None))
       = Returned None
   \<and> sessions (snd (provideInlineCompletionItems doc_v1 cursor (keyed ''k'') 0 1000 (init None)))
        ''k'' = Some 0
   \<and> session_text (heap (snd (provideInlineCompletionItems doc_v1 cursor (keyed ''k'') 0 1000
        (init None))) 0) = []
   \<and> phase (snd (provideInlineCompletionItems doc_v1 cursor (keyed ''k'') 0 1000 (init None))) 0
       = Throttled 1000
   \<and> dispatched (snd (provideInlineCompletionItems doc_v1 cursor (keyed ''k'') 0 1000
        (init None))) = []
   \<and> sessions (hostTokenFired 0
        (snd (provideInlineCompletionItems doc_v1 cursor (keyed ''k'') 0 1000 (init None))))
        ''k'' = None
   \<and> cancelled (hostTokenFired 0
        (snd (provideInlineCompletionItems doc_v1 cursor (keyed ''k'') 0 1000 (init None)))) 0"
    by (simp add: n k d split: prod.splits)
  with h1 h2 h3 show ?thesis by blast
qed

text \<open>
  C8, as stated, at two concrete calls. First: the key \<open>k\<close> maps to a registered session
  whose remote call has failed with \<open>rate_limited\<close>, and the cursor is inside a word. The
  mid-word guard returns before the lookup: the call returns nothing, and the session stays
  registered. Second: the session has streamed \<open>abc\<close> and its remote call has then failed
  with the empty reason, which the driver records as the error; the test
  \<^verbatim>\<open>if (session.error)\<close> takes the empty string for no error, so a call that passes both
  guards keeps the session registered and still shows \<open>abc\<close>.
\<close>

theorem suppressed_trigger_keeps_errored_counterexample:
  "sessions (run failed (init None)) (requestKey (keyed ''k'') doc_v1 mid_word) = Some 0
   \<and> session_error (heap (run failed (init None)) 0) = Some ''rate_limited''
   \<and> isAtMidWord doc_v1 mid_word = Some True
   \<and> fst (provideInlineCompletionItems doc_v1 mid_word (keyed ''k'') 1 1100
            (run failed (init None))) = Returned None
   \<and> sessions (snd (provideInlineCompletionItems doc_v1 mid_word (keyed ''k'') 1 1100
            (run failed (init None)))) ''k'' = Some 0
   \<and> session_error (heap (run (streaming_abc @ [Resolved 0 (Failed [])]) (init None)) 0)
       = Some []
   \<and> phase (run (streaming_abc @ [Resolved 0 (Failed [])]) (init None)) 0 = Exited
   \<and> isAtMidWord doc_v1 cursor = Some False
   \<and> fst (provideInlineCompletionItems doc_v1 cursor (keyed ''k'') 1 1100
            (run (streaming_abc @ [Resolved 0 (Failed [])]) (init None)))
       = Returned (Some \<lparr>items = [shown_item], enableForwardStability = True\<rparr>)
   \<and> sessions (snd (provideInlineCompletionItems doc_v1 cursor (keyed ''k'') 1 1100
            (run (streaming_abc @ [Resolved 0 (Failed [])]) (init None)))) ''k'' = Some 0"
  by (simp add: trace_defs)

text \<open>
  C8, amended. In every state the provider can reach: a call that is not suppressed by the
  two guards and whose key maps to a registered session whose recorded error is a non-empty
  string returns nothing, and afterwards the registry no longer holds that session under
  the key; its handle has fired. When the session is of the document's version, the call is
  exactly \<^verbatim>\<open>_clearSession(key, true)\<close>: the key is unregistered and nothing is allocated.
  Such a state arises as described: a remote call that resolves with a failure leaves its
  reason in the error field, the driver exited, the handle as it was; the recorded error is
  non-empty exactly when the reason is. Nothing is said here about a session whose recorded
  error is the empty string.
\<close>

theorem errored_session_is_discarded:
  assumes st: "st = run es (init cfg)"
    and en: "isLanguageEnabled (enabledLanguages st) document"
    and mw: "isAtMidWord document pos = Some False"
    and reg: "sessions st (requestKey ctx document pos) = Some sid"
    and rec: "session_error (heap st sid) = Some e"
    and ne: "e \<noteq> []"
  shows "(case provideInlineCompletionItems document pos ctx tok now st of (r, st') \<Rightarrow>
            r = Returned None
          \<and> sessions st' (requestKey ctx document pos) \<noteq> Some sid
          \<and> cancelled st' sid
          \<and> (documentVersion (heap st sid) = version document \<longrightarrow>
               st' = clearSession (requestKey ctx document pos) True st
             \<and> sessions st' = (sessions st)(requestKey ctx document pos := None)
             \<and> nextSid st' = nextSid st))
       \<and> (phase st0 i = Fetching \<longrightarrow>
            session_error (heap (step (Resolved i (Failed reason)) st0) i) = Some reason
          \<and> (session_error (heap (step (Resolved i (Failed reason)) st0) i) \<noteq> Some []
               \<longleftrightarrow> reason \<noteq> [])
          \<and> phase (step (Resolved i (Failed reason)) st0) i = Exited
          \<and> cancelled (step (Resolved i (Failed reason)) st0) i = cancelled st0 i)"
proof -
  let ?key = "requestKey ctx document pos"
  let ?c = "clearSession ?key True st"
  have ok: "registry_ok st" unfolding st by (rule registry_ok_reachable)
  from ok reg have lt: "sid < nextSid st" and u: "requestUuid (heap st sid) = ?key"
    by (auto simp: registry_ok_def)
  from rec ne have err: "truthy (session_error (heap st sid))" by (simp add: truthy_def)
  have c: "cancelled ?c sid" by (rule cancelled_clearSession [OF reg])
  have A: "case provideInlineCompletionItems document pos ctx tok now st of (r, st') \<Rightarrow>
            r = Returned None
          \<and> sessions st' ?key \<noteq> Some sid
          \<and> cancelled st' sid
          \<and> (documentVersion (heap st sid) = version document \<longrightarrow>
               st' = ?c \<and> sessions st' = (sessions st)(?key := None) \<and> nextSid st' = nextSid st)"
  proof (cases "documentVersion (heap st sid) = version document")
    case True
    have "provideInlineCompletionItems document pos ctx tok now st = (Returned None, ?c)"
      by (simp add: provide_passed [OF en mw] lookupAndServe_errored [OF reg True u err])
    then show ?thesis using c by simp
  next
    case False
    have "provideInlineCompletionItems document pos ctx tok now st
        = (Returned None, createSession ?key document pos tok now ?c)"
      by (simp add: provide_passed [OF en mw] lookupAndServe_stale [OF reg False u])
    then show ?thesis using c lt False by (simp add: cancelled_createSession)
  qed
  have B: "phase st0 i = Fetching \<longrightarrow>
            session_error (heap (step (Resolved i (Failed reason)) st0) i) = Some reason
          \<and> (session_error (heap (step (Resolved i (Failed reason)) st0) i) \<noteq> Some []
               \<longleftrightarrow> reason \<noteq> [])
          \<and> phase (step (Resolved i (Failed reason)) st0) i = Exited
          \<and> cancelled (step (Resolved i (Failed reason)) st0) i = cancelled st0 i"
    by (simp add: requestCompletion_resolved_def cancelled_def)
  from A B show ?thesis by blast
qed

theorem errored_session_is_discarded_witness:
  "isLanguageEnabled (enabledLanguages (run failed (init None))) doc_v1
   \<and> isAtMidWord doc_v1 cursor = Some False
   \<and> sessions (run failed (init None)) (requestKey (keyed ''k'') doc_v1 cursor) = Some 0
   \<and> session_error (heap (run failed (init None)) 0) = Some ''rate_limited''
   \<and> ''rate_limited'' \<noteq> []
   \<and> documentVersion (heap (run failed (init None)) 0) = version doc_v1
   \<and> phase (run started (init None)) 0 = Fetching
   \<and> \<not> cancelled (run started (init None)) 0
   \<and> session_error (heap (step (Resolved 0 (Failed ''rate_limited'')) (run started (init None))) 0)
       = Some ''rate_limited''
   \<and> \<not> cancelled (step (Resolved 0 (Failed ''rate_limited'')) (run started (init None))) 0
   \<and> fst (provideInlineCompletionItems doc_v1 cursor (keyed ''k'') 1 1100 (run failed (init None)))
       = Returned None
   \<and> sessions (snd (provideInlineCompletionItems doc_v1 cursor (keyed ''k'') 1 1100
        (run failed (init None)))) = Map.empty"
proof -
  let ?st = "run failed (init None)"
  have h1: "isLanguageEnabled (enabledLanguages ?st) doc_v1" by (simp add: trace_defs)
  have h2: "isAtMidWord doc_v1 cursor = Some False" by (simp add: trace_defs)
  have h4: "sessions ?st (requestKey (keyed ''k'') doc_v1 cursor) = Some 0"
    by (simp add: trace_defs)
  have h5: "session_error (heap ?st 0) = Some ''rate_limited''" by (simp add: trace_defs)
  have h6: "''rate_limited'' \<noteq> []" by simp
  have v: "documentVersion (heap ?st 0) = version doc_v1" by (simp add: trace_defs)
  have p: "phase (run started (init None)) 0 = Fetching" by (simp add: trace_defs)
  have c: "\<not> cancelled (run started (init None)) 0" by (simp add: trace_defs)
  have s: "sessions ?st = [''k'' \<mapsto> 0]" by (simp add: trace_defs)
  have k: "requestKey (keyed ''k'') doc_v1 cursor = ''k''" by (simp add: requestKey_def keyed_def)
  from errored_session_is_discarded [OF refl h1 h2 h4 h5 h6,
      where tok = 1 and now = 1100 and ?st0.0 = "run started (init None)" and i = 0
        and reason = "''rate_limited''"] v p c
  have "session_error (heap (step (Resolved 0 (Failed ''rate_limited'')) (run started (init None))) 0)
       = Some ''rate_limited''
   \<and> \<not> cancelled (step (Resolved 0 (Failed ''rate_limited'')) (run started (init None))) 0
   \<and> fst (provideInlineCompletionItems doc_v1 cursor (keyed ''k'') 1 1100 ?st) = Returned None
   \<and> sessions (snd (provideInlineCompletionItems doc_v1 cursor (keyed ''k'') 1 1100 ?st))
       = Map.empty"
    by (simp add: k s split: prod.splits)
  with h1 h2 h4 h5 h6 v p c show ?thesis by blast
qed

section \<open>Clearing an unknown correlation id\<close>

text \<open>
  C10. A correlation id with no registered session: \<^verbatim>\<open>_clearSession\<close>,
  \<^verbatim>\<open>handleEndOfLifetime\<close> and \<^verbatim>\<open>handleListEndOfLifetime\<close> hand back the very state they
  were given (the model has no failing branch, the source has none either), so neither the
  registry nor any session object changes. Clearing a key a second time changes nothing
  more, in any state.
\<close>

theorem clear_unknown_is_noop:
  "sessions st c = None \<Longrightarrow>
     clearSession c cancel st = st
   \<and> handleEndOfLifetime \<lparr>insertText = t, item_range = r, correlationId = Some c\<rparr> st = st
   \<and> handleListEndOfLifetime
        \<lparr>items = \<lparr>insertText = t, item_range = r, correlationId = Some c\<rparr> # rest,
         enableForwardStability = f\<rparr> st = st
   \<and> clearSession c cancel' (clearSession c cancel st') = clearSession c cancel st'"
  by (simp add: handleEndOfLifetime_def handleListEndOfLifetime_def)

theorem clear_unknown_is_noop_witness:
  "sessions (run started (init None)) ''k'' = Some 0
   \<and> sessions (run started (init None)) ''b'' = None
   \<and> clearSession ''b'' True (run started (init None)) = run started (init None)
   \<and> handleEndOfLifetime
        \<lparr>insertText = ''x'', item_range = \<lparr>range_start = cursor, range_end = cursor\<rparr>,
         correlationId = Some ''b''\<rparr> (run started (init None))
       = run started (init None)"
proof -
  have a: "sessions (run started (init None)) ''k'' = Some 0" by (simp add: trace_defs)
  have b: "sessions (run started (init None)) ''b'' = None" by (simp add: trace_defs)
  from clear_unknown_is_noop [OF b, of True "''x''" "\<lparr>range_start = cursor, range_end = cursor\<rparr>"]
  show ?thesis using a b by simp
qed

end
